theory Spec2Isabelle
  imports Complex_Main
begin

section \<open>Doubles\<close>

text \<open>
  The C type \<^verbatim>\<open>double\<close> is IEEE 754 binary64 with the default rounding
  (to nearest, ties to even). A double is a finite value, one of the two infinities
  or NaN; a finite value is carried as the real number it denotes. The two zeros
  are one value: the only operation that tells them apart is a division by zero, and
  the one divisor of \<^verbatim>\<open>collision.c\<close> is a square root, which is never the negative zero.
\<close>

datatype double = Fin real | PInf | NInf | NaN

text \<open>The largest finite double, \<^verbatim>\<open>__DBL_MAX__\<close> = (2 - 2^-52) * 2^1023.\<close>

definition max_finite :: real where
  "max_finite = (2 - 1 / 2 ^ 52) * 2 ^ 1023"

definition DBL_MAX :: double where
  "DBL_MAX = Fin max_finite"

text \<open>
  Rounding of a real number to binary64. The binary exponent of \<open>v\<close> is
  \<open>expo v\<close>; the spacing of the doubles around \<open>v\<close> is \<open>2^(expo v - 52)\<close>, and
  \<open>2^-1074\<close> in the subnormal range below \<open>2^-1022\<close>. The number is rounded to the
  nearest multiple of the spacing, a tie going to the even multiple, and a result beyond
  \<^verbatim>\<open>__DBL_MAX__\<close> is an infinity.
\<close>

definition expo :: "real \<Rightarrow> int" where
  "expo v = \<lfloor>log 2 \<bar>v\<bar>\<rfloor>"

definition ulp :: "real \<Rightarrow> real" where
  "ulp v = 2 powi (max (expo v) (- 1022) - 52)"

definition rne :: "real \<Rightarrow> int" where
  "rne q = (let f = \<lfloor>q\<rfloor>
            in if q - of_int f < 1 / 2 then f
               else if 1 / 2 < q - of_int f then f + 1
               else if even f then f else f + 1)"

definition nearest :: "real \<Rightarrow> real" where
  "nearest v = of_int (rne (v / ulp v)) * ulp v"

definition round64 :: "real \<Rightarrow> double" where
  "round64 v =
     (if v = 0 then Fin 0
      else if max_finite < \<bar>nearest v\<bar> then (if 0 < v then PInf else NInf)
      else Fin (nearest v))"

text \<open>
  The arithmetic of doubles: a finite result is the rounded exact result, and the
  infinities and NaN follow IEEE 754 (NaN for \<open>inf - inf\<close>, \<open>0 * inf\<close>,
  \<open>0 / 0\<close>, \<open>inf / inf\<close> and the square root of a negative number).
\<close>

fun dneg :: "double \<Rightarrow> double" where
  "dneg (Fin a) = Fin (- a)"
| "dneg PInf = NInf"
| "dneg NInf = PInf"
| "dneg NaN = NaN"

fun dadd :: "double \<Rightarrow> double \<Rightarrow> double" where
  "dadd (Fin a) (Fin b) = round64 (a + b)"
| "dadd (Fin a) PInf = PInf"
| "dadd (Fin a) NInf = NInf"
| "dadd PInf (Fin b) = PInf"
| "dadd PInf PInf = PInf"
| "dadd PInf NInf = NaN"
| "dadd NInf (Fin b) = NInf"
| "dadd NInf PInf = NaN"
| "dadd NInf NInf = NInf"
| "dadd NaN b = NaN"
| "dadd a NaN = NaN"

fun dmul :: "double \<Rightarrow> double \<Rightarrow> double" where
  "dmul (Fin a) (Fin b) = round64 (a * b)"
| "dmul (Fin a) PInf = (if a = 0 then NaN else if 0 < a then PInf else NInf)"
| "dmul (Fin a) NInf = (if a = 0 then NaN else if 0 < a then NInf else PInf)"
| "dmul PInf (Fin b) = (if b = 0 then NaN else if 0 < b then PInf else NInf)"
| "dmul NInf (Fin b) = (if b = 0 then NaN else if 0 < b then NInf else PInf)"
| "dmul PInf PInf = PInf"
| "dmul PInf NInf = NInf"
| "dmul NInf PInf = NInf"
| "dmul NInf NInf = PInf"
| "dmul NaN b = NaN"
| "dmul a NaN = NaN"

fun ddiv :: "double \<Rightarrow> double \<Rightarrow> double" where
  "ddiv (Fin a) (Fin b) =
     (if b = 0 then (if a = 0 then NaN else if 0 < a then PInf else NInf)
      else round64 (a / b))"
| "ddiv (Fin a) PInf = Fin 0"
| "ddiv (Fin a) NInf = Fin 0"
| "ddiv PInf (Fin b) = (if 0 \<le> b then PInf else NInf)"
| "ddiv NInf (Fin b) = (if 0 \<le> b then NInf else PInf)"
| "ddiv PInf PInf = NaN"
| "ddiv PInf NInf = NaN"
| "ddiv NInf PInf = NaN"
| "ddiv NInf NInf = NaN"
| "ddiv NaN b = NaN"
| "ddiv a NaN = NaN"

fun dsqrt :: "double \<Rightarrow> double" where
  "dsqrt (Fin a) = (if a < 0 then NaN else round64 (sqrt a))"
| "dsqrt PInf = PInf"
| "dsqrt NInf = NaN"
| "dsqrt NaN = NaN"

text \<open>The comparisons: every comparison with NaN is false.\<close>

fun dlt :: "double \<Rightarrow> double \<Rightarrow> bool" where
  "dlt (Fin a) (Fin b) = (a < b)"
| "dlt (Fin a) PInf = True"
| "dlt (Fin a) NInf = False"
| "dlt PInf b = False"
| "dlt NInf (Fin b) = True"
| "dlt NInf PInf = True"
| "dlt NInf NInf = False"
| "dlt NaN b = False"
| "dlt a NaN = False"

fun dle :: "double \<Rightarrow> double \<Rightarrow> bool" where
  "dle (Fin a) (Fin b) = (a \<le> b)"
| "dle (Fin a) PInf = True"
| "dle (Fin a) NInf = False"
| "dle PInf (Fin b) = False"
| "dle PInf PInf = True"
| "dle PInf NInf = False"
| "dle NInf (Fin b) = True"
| "dle NInf PInf = True"
| "dle NInf NInf = True"
| "dle NaN b = False"
| "dle a NaN = False"

text \<open>
  \<^verbatim>\<open>fmin\<close> and \<^verbatim>\<open>fmax\<close> of \<^verbatim>\<open>math.h\<close>: when one argument is NaN the other
  one is returned.
\<close>

fun fmin :: "double \<Rightarrow> double \<Rightarrow> double" where
  "fmin NaN b = b"
| "fmin a NaN = a"
| "fmin a b = (if dlt b a then b else a)"

fun fmax :: "double \<Rightarrow> double \<Rightarrow> double" where
  "fmax NaN b = b"
| "fmax a NaN = a"
| "fmax a b = (if dlt a b then b else a)"

text \<open>
  The operators of C on doubles, so that the functions below read as their source:
  \<open>a - b\<close> is \<open>a + (- b)\<close>, \<open>a > b\<close> is \<open>b < a\<close> and \<open>a \<ge> b\<close> is
  \<open>b \<le> a\<close>. The literals \<open>0\<close> and \<open>1\<close> are the doubles of that value.
\<close>

instantiation double :: "{zero, one, plus, minus, uminus, times, inverse, ord}"
begin
definition zero_double_def: "0 = Fin 0"
definition one_double_def: "1 = Fin 1"
definition plus_double_def: "a + b = dadd a b"
definition uminus_double_def: "- a = dneg a"
definition minus_double_def: "a - b = dadd a (dneg b)"
definition times_double_def: "a * b = dmul a b"
definition divide_double_def: "a div b = ddiv a b"
definition inverse_double_def: "inverse a = ddiv (Fin 1) a"
definition less_double_def: "a < b = dlt a b"
definition less_eq_double_def: "a \<le> b = dle a b"
instance ..
end

section \<open>Vectors\<close>

text \<open>
  The C type \<^verbatim>\<open>vector_t\<close> is a pair of doubles. The record is polymorphic in the
  type of its components: the collision detector works on vectors of doubles, and
  the impulse formula of the spec is stated on vectors of real numbers.
\<close>

record 'a vector =
  x :: 'a
  y :: 'a

definition VEC_ZERO :: "'a::zero vector" where
  "VEC_ZERO = \<lparr>x = 0, y = 0\<rparr>"

text \<open>
  Modelled from the spec: the vector helpers of \<^verbatim>\<open>vector.h\<close> called by
  \<^verbatim>\<open>collision.c\<close> (their bodies are not among the sources). They are the
  componentwise difference, the scalar multiple, the dot product (two products and
  one sum, each rounded) and the Euclidean length as the rounded square root of the
  dot product of the vector with itself.
\<close>

definition vec_subtract :: "'a::minus vector \<Rightarrow> 'a vector \<Rightarrow> 'a vector" where
  "vec_subtract v1 v2 = \<lparr>x = x v1 - x v2, y = y v1 - y v2\<rparr>"

definition vec_add :: "'a::plus vector \<Rightarrow> 'a vector \<Rightarrow> 'a vector" where
  "vec_add v1 v2 = \<lparr>x = x v1 + x v2, y = y v1 + y v2\<rparr>"

definition vec_multiply :: "'a::times \<Rightarrow> 'a vector \<Rightarrow> 'a vector" where
  "vec_multiply scalar v = \<lparr>x = scalar * x v, y = scalar * y v\<rparr>"

definition vec_dot :: "'a::{plus,times} vector \<Rightarrow> 'a vector \<Rightarrow> 'a" where
  "vec_dot v1 v2 = x v1 * x v2 + y v1 * y v2"

definition vec_get_length :: "double vector \<Rightarrow> double" where
  "vec_get_length v = dsqrt (vec_dot v v)"

section \<open>Edge extraction\<close>

text \<open>
  \<^verbatim>\<open>get_edges\<close> on the values: the loop over \<open>i\<close> from the source, reading
  \<open>shape[i % n]\<close> and \<open>shape[(i + 1) % n]\<close>. Both indices are below \<open>n\<close>
  whenever the loop body runs, so no read is out of range.
\<close>

function get_edges_from :: "'a::minus vector list \<Rightarrow> nat \<Rightarrow> 'a vector list" where
  "get_edges_from shape i =
     (if i < length shape
      then vec_subtract (shape ! (i mod length shape)) (shape ! ((i + 1) mod length shape))
             # get_edges_from shape (i + 1)
      else [])"
  by pat_completeness auto
termination
  by (relation "measure (\<lambda>(shape, i). length shape - i)") auto

declare get_edges_from.simps [simp del]

definition get_edges :: "'a::minus vector list \<Rightarrow> 'a vector list" where
  "get_edges shape = get_edges_from shape 0"

text \<open>
  \<^verbatim>\<open>get_edges\<close> on a store, for the question of what it writes. The store is the
  list of all \<^verbatim>\<open>vector_t\<close> cells, a pointer is an index into it, and a
  \<^verbatim>\<open>list_t\<close> of vectors is the list of its element pointers. \<^verbatim>\<open>malloc\<close>
  returns the next free cell (the end of the store); the assignment \<^verbatim>\<open>*vec = ...\<close>
  fills it and \<^verbatim>\<open>list_add\<close> appends the pointer to the new list.
\<close>

type_synonym store = "double vector list"

function get_edges_st_from :: "store \<Rightarrow> nat list \<Rightarrow> nat \<Rightarrow> nat list \<Rightarrow> store \<times> nat list" where
  "get_edges_st_from h shape i edges =
     (if i < length shape
      then (let vec = length h;
                h' = h @ [vec_subtract (h ! (shape ! (i mod length shape)))
                                       (h ! (shape ! ((i + 1) mod length shape)))]
            in get_edges_st_from h' shape (i + 1) (edges @ [vec]))
      else (h, edges))"
  by pat_completeness auto
termination
  by (relation "measure (\<lambda>(h, shape, i, edges). length shape - i)") auto

declare get_edges_st_from.simps [simp del]

definition get_edges_st :: "store \<Rightarrow> nat list \<Rightarrow> store \<times> nat list" where
  "get_edges_st h shape = get_edges_st_from h shape 0 []"

section \<open>Projections\<close>

text \<open>
  \<^verbatim>\<open>get_max_min_projections\<close>: the running minimum starts at \<^verbatim>\<open>__DBL_MAX__\<close>,
  the running maximum at its negation, and both are updated with strict comparisons
  (a NaN projection updates neither). The result vector holds the maximum in \<open>x\<close>
  and the minimum in \<open>y\<close>.
\<close>

fun max_min_loop ::
  "double vector list \<Rightarrow> double vector \<Rightarrow> double \<Rightarrow> double \<Rightarrow> double \<times> double" where
  "max_min_loop [] unit_axis mn mx = (mn, mx)"
| "max_min_loop (vertex # rest) unit_axis mn mx =
     (let proj = vec_dot vertex unit_axis;
          mn' = (if proj < mn then proj else mn);
          mx' = (if proj > mx then proj else mx)
      in max_min_loop rest unit_axis mn' mx')"

definition get_max_min_projections :: "double vector list \<Rightarrow> double vector \<Rightarrow> double vector" where
  "get_max_min_projections shape unit_axis =
     (case max_min_loop shape unit_axis DBL_MAX (- DBL_MAX) of
        (mn, mx) \<Rightarrow> \<lparr>x = mx, y = mn\<rparr>)"

section \<open>The separating-axis test\<close>

record collision_info =
  axis :: "double vector"
  collided :: bool

text \<open>
  The axis the loop body derives from one edge (lines 71 and 72). When the length
  of the edge rounds to zero the quotient \<open>1 / 0\<close> is \<open>+inf\<close> and the components of
  the axis are infinities or NaN.
\<close>

definition unit_normal :: "double vector \<Rightarrow> double vector" where
  "unit_normal sep_axis =
     (let perp_axis = \<lparr>x = - 1 * y sep_axis, y = x sep_axis\<rparr>
      in vec_multiply (1 / vec_get_length perp_axis) perp_axis)"

text \<open>
  The loop of \<^verbatim>\<open>compare_collision\<close> over the remaining edges. The pair
  \<open>(min_overlap, ax)\<close> is the value behind the pointer \<^verbatim>\<open>min_overlap\<close> and the
  field \<^verbatim>\<open>collision.axis\<close>; the function returns the collision record together
  with the final value behind the pointer. The early return hands back the record as it
  is at that moment: \<open>collided\<close> still false, \<open>axis\<close> whatever an earlier
  iteration stored.
\<close>

fun compare_loop ::
  "double vector list \<Rightarrow> double vector list \<Rightarrow> double vector list \<Rightarrow> double \<Rightarrow> double vector
     \<Rightarrow> collision_info \<times> double" where
  "compare_loop shape1 shape2 [] min_overlap ax =
     (\<lparr>axis = ax, collided = True\<rparr>, min_overlap)"
| "compare_loop shape1 shape2 (sep_axis # rest) min_overlap ax =
     (let unit_axis = unit_normal sep_axis;
          proj_1 = get_max_min_projections shape1 unit_axis;
          proj_2 = get_max_min_projections shape2 unit_axis
      in if y proj_2 \<ge> x proj_1 \<or> x proj_2 \<le> y proj_1
         then (\<lparr>axis = ax, collided = False\<rparr>, min_overlap)
         else (let overlap = fmin (x proj_1) (x proj_2) - fmax (y proj_1) (y proj_2)
               in if overlap < min_overlap
                  then compare_loop shape1 shape2 rest overlap unit_axis
                  else compare_loop shape1 shape2 rest min_overlap ax))"

definition compare_collision ::
  "double vector list \<Rightarrow> double vector list \<Rightarrow> double \<Rightarrow> collision_info \<times> double" where
  "compare_collision shape1 shape2 min_overlap =
     compare_loop shape1 shape2 (get_edges shape1) min_overlap VEC_ZERO"

text \<open>
  Modelled from the spec: the body of \<^verbatim>\<open>body.h\<close>, an external collaborator with
  a polygon, a mass that is a positive real or the infinite sentinel, a velocity and
  an accumulator of impulses; \<^verbatim>\<open>body_get_shape\<close> hands out a copy of the polygon.
  The polygon is the list of doubles the detector reads; mass, velocity and impulse
  are the real numbers of the spec's impulse formula.
\<close>

datatype mass_t = Finite real | Infinite

record body =
  body_shape :: "double vector list"
  body_mass :: mass_t
  body_velocity :: "real vector"
  body_impulse :: "real vector"

definition body_get_shape :: "body \<Rightarrow> double vector list" where
  "body_get_shape b = body_shape b"

definition find_collision :: "body \<Rightarrow> body \<Rightarrow> collision_info" where
  "find_collision body1 body2 =
     (let shape1 = body_get_shape body1;
          shape2 = body_get_shape body2;
          (collision1, c1_overlap) = compare_collision shape1 shape2 DBL_MAX;
          (collision2, c2_overlap) = compare_collision shape2 shape1 DBL_MAX
      in if \<not> collided collision1 then collision1
         else if \<not> collided collision2 then collision2
         else if c1_overlap < c2_overlap then collision1
         else collision2)"

section \<open>Collision event wiring and the physics resolver\<close>

text \<open>
  Modelled from the spec: the per-tick action that \<^verbatim>\<open>create_collision\<close> registers
  (\<^verbatim>\<open>forces.c\<close> is not among the sources; only the declarations of
  \<^verbatim>\<open>forces.h\<close> are). The auxiliary holds the handler's own auxiliary value, the
  force constant and the flag that persists between ticks. One tick runs the detector;
  if \<open>collided\<close> is true and the flag was false it invokes the handler and sets the
  flag; if \<open>collided\<close> is false it clears the flag. An invocation of the handler is
  recorded as the tuple of its arguments.
\<close>

record 'a collision_aux =
  handler_aux :: 'a
  force_const :: real
  colliding :: bool

type_synonym 'a handler_call = "body \<times> body \<times> double vector \<times> 'a \<times> real"

definition collision_tick ::
  "'a collision_aux \<Rightarrow> body \<Rightarrow> body \<Rightarrow> 'a handler_call option \<times> 'a collision_aux" where
  "collision_tick aux body1 body2 =
     (let c = find_collision body1 body2
      in if collided c
         then (if \<not> colliding aux
               then (Some (body1, body2, axis c, handler_aux aux, force_const aux),
                     aux\<lparr>colliding := True\<rparr>)
               else (None, aux))
         else (None, aux\<lparr>colliding := False\<rparr>))"

text \<open>
  A run of the registered entry over the successive states of the two bodies, one pair
  per tick, collecting what each tick did with the handler.
\<close>

fun run_ticks ::
  "'a collision_aux \<Rightarrow> (body \<times> body) list \<Rightarrow> 'a handler_call option list \<times> 'a collision_aux" where
  "run_ticks aux [] = ([], aux)"
| "run_ticks aux ((body1, body2) # rest) =
     (case collision_tick aux body1 body2 of
        (call, aux') \<Rightarrow>
          (case run_ticks aux' rest of (calls, aux'') \<Rightarrow> (call # calls, aux'')))"

text \<open>
  Modelled from the spec: \<^verbatim>\<open>physics_collision_handler\<close> (its body is in the absent
  \<^verbatim>\<open>forces.c\<close>). The relative velocity along the axis is
  \<open>(vel1 - vel2) \<cdot> axis\<close>; when it indicates that the bodies are separating no
  impulse is applied. The spec does not say which values of the relative velocity
  indicate separation, so that test is the parameter \<open>separating\<close>. The reduced mass
  is \<open>m1 m2 / (m1 + m2)\<close> for two finite masses and the finite mass when the other is
  infinite; two infinite masses are unsupported, which is the result \<open>None\<close>. The
  impulse \<open>J \<cdot> axis\<close> with \<open>J = mu (1 + e) v_rel\<close> is subtracted from body1 and
  added to body2, and only finite-mass bodies receive one. Accumulating an impulse adds
  it to the body's impulse field. The formula is the spec's, over the real numbers.
\<close>

definition body_add_impulse :: "body \<Rightarrow> real vector \<Rightarrow> body" where
  "body_add_impulse b j = b\<lparr>body_impulse := vec_add (body_impulse b) j\<rparr>"

fun reduced_mass :: "mass_t \<Rightarrow> mass_t \<Rightarrow> real option" where
  "reduced_mass (Finite m1) (Finite m2) = Some ((m1 * m2) / (m1 + m2))"
| "reduced_mass Infinite (Finite m2) = Some m2"
| "reduced_mass (Finite m1) Infinite = Some m1"
| "reduced_mass Infinite Infinite = None"

definition physics_collision_handler ::
  "(real \<Rightarrow> bool) \<Rightarrow> body \<Rightarrow> body \<Rightarrow> real vector \<Rightarrow> real \<Rightarrow> (body \<times> body) option" where
  "physics_collision_handler separating body1 body2 ax e =
     (let v_rel = vec_dot (vec_subtract (body_velocity body1) (body_velocity body2)) ax
      in if separating v_rel then Some (body1, body2)
         else (case reduced_mass (body_mass body1) (body_mass body2) of
                 None \<Rightarrow> None
               | Some mu \<Rightarrow>
                   (let J = mu * (1 + e) * v_rel;
                        body1' = (if body_mass body1 = Infinite then body1
                                  else body_add_impulse body1 (vec_multiply (- J) ax));
                        body2' = (if body_mass body2 = Infinite then body2
                                  else body_add_impulse body2 (vec_multiply J ax))
                    in Some (body1', body2'))))"

section \<open>Notions used to state the properties\<close>

text \<open>The edge the spec asks for at index \<open>i\<close>: \<open>vertex[i] - vertex[(i + 1) mod N]\<close>.\<close>

definition edge_at :: "'a::minus vector list \<Rightarrow> nat \<Rightarrow> 'a vector" where
  "edge_at shp i = vec_subtract (shp ! i) (shp ! ((i + 1) mod length shp))"

text \<open>
  The test of line 75 on one axis, with \<open>shape1\<close> the shape the edge comes from
  (A) and \<open>shape2\<close> the other one (B): \<open>minB \<ge> maxA \<or> maxB \<le> minA\<close>; and the
  overlap depth of line 79, \<open>min(maxA, maxB) - max(minA, minB)\<close>. Both are the
  values the code computes, in doubles.
\<close>

definition separated_on :: "double vector list \<Rightarrow> double vector list \<Rightarrow> double vector \<Rightarrow> bool" where
  "separated_on shape1 shape2 unit_axis =
     (let proj_1 = get_max_min_projections shape1 unit_axis;
          proj_2 = get_max_min_projections shape2 unit_axis
      in y proj_2 \<ge> x proj_1 \<or> x proj_2 \<le> y proj_1)"

definition overlap_depth :: "double vector list \<Rightarrow> double vector list \<Rightarrow> double vector \<Rightarrow> double" where
  "overlap_depth shape1 shape2 unit_axis =
     (let proj_1 = get_max_min_projections shape1 unit_axis;
          proj_2 = get_max_min_projections shape2 unit_axis
      in fmin (x proj_1) (x proj_2) - fmax (y proj_1) (y proj_2))"


text \<open>No repeated consecutive vertices, the closing edge included: no zero-length edge.\<close>

definition no_repeated :: "'a vector list \<Rightarrow> bool" where
  "no_repeated shp = (\<forall>i<length shp. shp ! i \<noteq> shp ! ((i + 1) mod length shp))"

text \<open>
  Whether the detector reports a collision for the pair of bodies of one tick, and the
  arguments of the handler invocation that tick makes when it fires.
\<close>

definition hit :: "body \<times> body \<Rightarrow> bool" where
  "hit t = collided (find_collision (fst t) (snd t))"

definition expected_call :: "'a collision_aux \<Rightarrow> body \<times> body \<Rightarrow> 'a handler_call" where
  "expected_call aux t =
     (fst t, snd t, axis (find_collision (fst t) (snd t)), handler_aux aux, force_const aux)"

text \<open>
  The unit roundoff of binary64 and half of the smallest positive double: rounding
  a real number \<open>v\<close> below the overflow threshold moves it by at most
  \<open>\<bar>v\<bar> * u53 + eta\<close>. The smallest positive double itself is \<open>tiny\<close>.
\<close>

definition u53 :: real where
  "u53 = 2 powi (- 53)"

definition eta :: real where
  "eta = 2 powi (- 1075)"

definition tiny :: real where
  "tiny = 2 powi (- 1074)"

text \<open>The vector of the two finite doubles with the given values.\<close>

definition pt :: "real \<Rightarrow> real \<Rightarrow> double vector" where
  "pt a b = \<lparr>x = Fin a, y = Fin b\<rparr>"

text \<open>Example data.\<close>

definition tri_store :: store where
  "tri_store = [pt 0 0, pt 4 0, pt 0 3]"

definition tri_a :: "double vector list" where
  "tri_a = [pt 0 0, pt 1 0, pt 0 1]"

definition tri_far :: "double vector list" where
  "tri_far = [pt 5 0, pt 6 0, pt 5 1]"

definition body_of :: "double vector list \<Rightarrow> body" where
  "body_of shp = \<lparr>body_shape = shp, body_mass = Finite 1,
                  body_velocity = VEC_ZERO, body_impulse = VEC_ZERO\<rparr>"

definition sq_a :: "double vector list" where
  "sq_a = [pt 0 0, pt 2 0, pt 2 2, pt 0 2]"

definition sq_b :: "double vector list" where
  "sq_b = [pt 1 0, pt 3 0, pt 3 2, pt 1 2]"

definition sq_touch :: "double vector list" where
  "sq_touch = [pt 2 0, pt 4 0, pt 4 2, pt 2 2]"

definition aux0 :: "unit collision_aux" where
  "aux0 = \<lparr>handler_aux = (), force_const = 0, colliding = False\<rparr>"

definition ticks0 :: "(body \<times> body) list" where
  "ticks0 = [(body_of sq_a, body_of sq_b), (body_of sq_a, body_of sq_b),
             (body_of tri_a, body_of tri_far), (body_of sq_a, body_of sq_b)]"

definition sep_test :: "real \<Rightarrow> bool" where
  "sep_test v_rel = (v_rel \<le> 0)"

definition ball1 :: body where
  "ball1 = \<lparr>body_shape = sq_a, body_mass = Finite 2,
            body_velocity = \<lparr>x = 3, y = 0\<rparr>, body_impulse = VEC_ZERO\<rparr>"

definition ball2 :: body where
  "ball2 = \<lparr>body_shape = sq_b, body_mass = Finite 2,
            body_velocity = \<lparr>x = 1, y = 0\<rparr>, body_impulse = VEC_ZERO\<rparr>"

definition wall :: body where
  "wall = \<lparr>body_shape = sq_a, body_mass = Infinite,
           body_velocity = VEC_ZERO, body_impulse = VEC_ZERO\<rparr>"

text \<open>
  Shapes of subnormal size: \<open>sub k\<close> is the \<open>k\<close>-th multiple of the smallest
  positive double. Two triangles with no common point (the second is the first moved
  by \<open>(100, 100)\<close>), a third one that overlaps the first, and a triangle strictly inside
  another.
\<close>

definition sub :: "int \<Rightarrow> real" where
  "sub k = of_int k * tiny"

definition tiny_a :: "double vector list" where
  "tiny_a = [pt (sub 1) (sub 4), pt (sub 2) (sub 2), pt (sub 4) (sub 1)]"

definition tiny_b :: "double vector list" where
  "tiny_b = [pt (sub 101) (sub 104), pt (sub 102) (sub 102), pt (sub 104) (sub 101)]"

definition tiny_c :: "double vector list" where
  "tiny_c = [pt (sub 2) (sub 4), pt (sub 3) (sub 2), pt (sub 5) (sub 1)]"

definition tiny_in :: "double vector list" where
  "tiny_in = [pt (sub 5) (sub 5), pt (sub 10) (sub 5), pt (sub 5) (sub 10)]"

definition tiny_out :: "double vector list" where
  "tiny_out = [pt 0 0, pt (sub 30) 0, pt 0 (sub 40)]"

text \<open>
  The point of the plane that a vector of two finite doubles denotes, and the polygon
  of real points that a shape denotes.
\<close>

definition val :: "double \<Rightarrow> real" where
  "val d = (case d of Fin r \<Rightarrow> r | _ \<Rightarrow> 0)"

definition point :: "double vector \<Rightarrow> real vector" where
  "point v = \<lparr>x = val (x v), y = val (y v)\<rparr>"

definition points :: "double vector list \<Rightarrow> real vector list" where
  "points shp = map point shp"

text \<open>The Euclidean length of a vector of real numbers.\<close>

definition norm2 :: "real vector \<Rightarrow> real" where
  "norm2 v = sqrt (x v * x v + y v * y v)"

text \<open>
  Twice the signed area of the triangle \<open>a b p\<close>: positive when \<open>p\<close> lies to the
  left of the directed line from \<open>a\<close> to \<open>b\<close>, zero when it lies on it.
\<close>

definition orient :: "real vector \<Rightarrow> real vector \<Rightarrow> real vector \<Rightarrow> real" where
  "orient a b p = (x b - x a) * (y p - y a) - (y b - y a) * (x p - x a)"

text \<open>
  A point lies strictly inside a triangle when it is strictly on the same side of the
  three directed edges (the left side for a counterclockwise triangle).
\<close>

definition strictly_inside :: "real vector \<Rightarrow> real vector list \<Rightarrow> bool" where
  "strictly_inside p tri =
     (case tri of
        [a, b, c] \<Rightarrow>
          (0 < orient a b p \<and> 0 < orient b c p \<and> 0 < orient c a p)
          \<or> (orient a b p < 0 \<and> orient b c p < 0 \<and> orient c a p < 0)
      | _ \<Rightarrow> False)"

text \<open>
  The side of a point with respect to the \<open>i\<close>-th edge of a shape, from vertex \<open>i\<close>
  to vertex \<open>(i + 1) mod N\<close>. The source takes its polygons as convex, with the vertices
  in counterclockwise order: every vertex lies to the left of or on every edge. The
  points of such a polygon are those to the left of or on every edge.
\<close>

definition edge_side :: "real vector list \<Rightarrow> nat \<Rightarrow> real vector \<Rightarrow> real" where
  "edge_side shp i q = orient (shp ! i) (shp ! ((i + 1) mod length shp)) q"

definition convex_ccw :: "real vector list \<Rightarrow> bool" where
  "convex_ccw shp = (\<forall>i<length shp. \<forall>v\<in>set shp. 0 \<le> edge_side shp i v)"

definition inside :: "real vector list \<Rightarrow> real vector \<Rightarrow> bool" where
  "inside shp q = (\<forall>i<length shp. 0 \<le> edge_side shp i q)"

section \<open>Rounding to binary64\<close>

lemma expo_bounds:
  assumes "v \<noteq> 0"
  shows "2 powi (expo v) \<le> \<bar>v\<bar>" and "\<bar>v\<bar> < 2 powi (expo v + 1)"
proof -
  have pos: "0 < \<bar>v\<bar>" using assms by simp
  have e: "2 powr (log 2 \<bar>v\<bar>) = \<bar>v\<bar>" using pos by simp
  have "2 powr (of_int (expo v)) \<le> 2 powr (log 2 \<bar>v\<bar>)"
    unfolding expo_def by (subst powr_le_cancel_iff) auto
  thus "2 powi (expo v) \<le> \<bar>v\<bar>" using e by (simp add: powr_real_of_int')
  have "log 2 \<bar>v\<bar> < of_int (expo v + 1)"
    using real_of_int_floor_add_one_gt[of "log 2 \<bar>v\<bar>"] by (simp add: expo_def)
  hence "2 powr (log 2 \<bar>v\<bar>) < 2 powr (of_int (expo v + 1))"
    by (subst powr_less_cancel_iff) simp_all
  moreover have "(2::real) powr (of_int (expo v + 1)) = 2 powi (expo v + 1)"
    by (rule powr_real_of_int') simp_all
  ultimately show "\<bar>v\<bar> < 2 powi (expo v + 1)" using e by (simp del: of_int_add)
qed

lemma powi2_mono: "a \<le> b \<Longrightarrow> (2::real) powi a \<le> 2 powi b"
  by (rule power_int_increasing) auto

lemma powi2_strict_mono: "a < b \<Longrightarrow> (2::real) powi a < 2 powi b"
  by (rule power_int_strict_increasing) auto

lemma expo_eq:
  assumes lo: "2 powi e \<le> \<bar>v\<bar>" and hi: "\<bar>v\<bar> < 2 powi (e + 1)"
  shows "expo v = e"
proof -
  have "0 < (2::real) powi e" by simp
  with lo have "0 < \<bar>v\<bar>" by linarith
  hence nz: "v \<noteq> 0" by simp
  note b = expo_bounds[OF nz]
  have "\<not> expo v + 1 \<le> e"
  proof
    assume "expo v + 1 \<le> e"
    hence "(2::real) powi (expo v + 1) \<le> 2 powi e" by (rule powi2_mono)
    thus False using b(2) lo by linarith
  qed
  moreover have "\<not> e + 1 \<le> expo v"
  proof
    assume "e + 1 \<le> expo v"
    hence "(2::real) powi (e + 1) \<le> 2 powi (expo v)" by (rule powi2_mono)
    thus False using b(1) hi by linarith
  qed
  ultimately show ?thesis by linarith
qed

lemma expo_less:
  assumes "v \<noteq> 0" and "\<bar>v\<bar> < 2 powi e"
  shows "expo v < e"
proof (rule ccontr)
  assume "\<not> expo v < e"
  hence "(2::real) powi e \<le> 2 powi (expo v)" by (intro powi2_mono) simp
  thus False using expo_bounds(1)[OF assms(1)] assms(2) by linarith
qed

lemma expo_ge:
  assumes "2 powi e \<le> \<bar>v\<bar>"
  shows "e \<le> expo v"
proof (rule ccontr)
  assume "\<not> e \<le> expo v"
  hence "(2::real) powi (expo v + 1) \<le> 2 powi e" by (intro powi2_mono) simp
  moreover have "0 < (2::real) powi e" by simp
  with assms have "0 < \<bar>v\<bar>" by linarith
  hence "v \<noteq> 0" by simp
  ultimately show False using expo_bounds(2)[of v] assms by linarith
qed

lemma rne_int [simp]: "rne (of_int k) = k"
  by (simp add: rne_def)

lemma rne_err: "\<bar>of_int (rne q) - q\<bar> \<le> 1 / 2"
  unfolding rne_def Let_def by (auto simp: abs_if) linarith+

lemma rne_nonneg: "0 \<le> q \<Longrightarrow> 0 \<le> rne q"
  unfolding rne_def Let_def by (auto simp: abs_if)

lemma rne_nonpos: "q \<le> 0 \<Longrightarrow> rne q \<le> 0"
  unfolding rne_def Let_def by (auto simp: abs_if)

lemma ulp_pos [simp]: "0 < ulp v"
  by (simp add: ulp_def)

lemma ulp_nonneg [simp]: "0 \<le> ulp v"
  by (rule less_imp_le[OF ulp_pos])

lemma ulp_nonzero [simp]: "ulp v \<noteq> 0"
  using ulp_pos[of v] by linarith

lemma p2_add: "(2::real) powi (a + b) = 2 powi a * 2 powi b"
  by (rule power_int_add) simp

lemma p2_half: "(2::real) powi a / 2 = 2 powi (a - 1)"
  using p2_add[of a "- 1"] by simp

lemma u53_pos [simp]: "0 < u53" by (simp only: u53_def zero_less_power_int zero_less_numeral)
lemma eta_pos [simp]: "0 < eta" by (simp only: eta_def zero_less_power_int zero_less_numeral)
lemma u53_nonneg [simp]: "0 \<le> u53" by (rule less_imp_le[OF u53_pos])
lemma eta_nonneg [simp]: "0 \<le> eta" by (rule less_imp_le[OF eta_pos])

lemma max_finite_eq: "max_finite = (2 ^ 53 - 1) * 2 ^ 971"
  by (simp add: max_finite_def)

lemma max_finite_pos [simp]: "0 < max_finite"
  by (simp add: max_finite_def)

lemma max_finite_not_neg [simp]: "\<not> max_finite < 0"
  using max_finite_pos by linarith

lemma ulp_normal: "- 1022 \<le> expo v \<Longrightarrow> ulp v = 2 powi (expo v - 52)"
  by (simp only: ulp_def max_def if_False if_True not_le split: if_splits) auto

lemma ulp_subnormal: "expo v \<le> - 1022 \<Longrightarrow> ulp v = 2 powi (- 1074)"
proof -
  assume "expo v \<le> - 1022"
  hence "max (expo v) (- 1022) - 52 = - 1074" by simp
  thus ?thesis by (simp only: ulp_def)
qed

lemma nearest_zero [simp]: "nearest 0 = 0"
  by (simp add: nearest_def rne_def)

lemma nearest_err_ulp: "\<bar>nearest v - v\<bar> \<le> ulp v / 2"
proof -
  have "nearest v - v = (of_int (rne (v / ulp v)) - v / ulp v) * ulp v"
    by (simp add: nearest_def algebra_simps)
  hence "\<bar>nearest v - v\<bar> = \<bar>of_int (rne (v / ulp v)) - v / ulp v\<bar> * ulp v"
    by (simp add: abs_mult)
  also have "\<dots> \<le> (1 / 2) * ulp v"
    by (rule mult_right_mono[OF rne_err]) simp
  finally show ?thesis by simp
qed

lemma half_ulp_le:
  assumes "v \<noteq> 0"
  shows "ulp v / 2 \<le> \<bar>v\<bar> * u53 + eta"
proof (cases "- 1022 \<le> expo v")
  case True
  have "ulp v / 2 = 2 powi (expo v - 52 - 1)"
    unfolding ulp_normal[OF True] by (rule p2_half)
  also have "expo v - 52 - 1 = expo v + (- 53)" by simp
  also have "(2::real) powi (expo v + (- 53)) = 2 powi (expo v) * u53"
    unfolding u53_def by (rule p2_add)
  also have "\<dots> \<le> \<bar>v\<bar> * u53"
    by (rule mult_right_mono[OF expo_bounds(1)[OF assms]]) simp
  also have "\<dots> \<le> \<bar>v\<bar> * u53 + eta" using eta_nonneg by linarith
  finally show ?thesis .
next
  case False
  hence "ulp v = 2 powi (- 1074)" by (intro ulp_subnormal) simp
  hence "ulp v / 2 = 2 powi (- 1074 - 1)" by (simp only: p2_half)
  also have "(- 1074 - 1 :: int) = - 1075" by simp
  finally have "ulp v / 2 = eta" by (simp only: eta_def)
  moreover have "0 \<le> \<bar>v\<bar> * u53" by (intro mult_nonneg_nonneg) simp_all
  ultimately show ?thesis by linarith
qed

lemma nearest_err: "\<bar>nearest v - v\<bar> \<le> \<bar>v\<bar> * u53 + eta"
proof (cases "v = 0")
  case True thus ?thesis by simp
next
  case False
  have "\<bar>nearest v - v\<bar> \<le> ulp v / 2" by (rule nearest_err_ulp)
  also have "\<dots> \<le> \<bar>v\<bar> * u53 + eta" by (rule half_ulp_le[OF False])
  finally show ?thesis .
qed

lemma nearest_nonneg: "0 \<le> v \<Longrightarrow> 0 \<le> nearest v"
  unfolding nearest_def by (intro mult_nonneg_nonneg) (simp_all add: rne_nonneg)

lemma nearest_nonpos: "v \<le> 0 \<Longrightarrow> nearest v \<le> 0"
  unfolding nearest_def
  by (intro mult_nonpos_nonneg) (simp_all add: rne_nonpos divide_nonpos_pos)

lemma no_overflow_bound: "2 ^ 1023 + (2 ^ 1023 * u53 + eta) \<le> max_finite"
proof -
  have "(2::real) ^ 1023 * u53 = 2 powi (1023 + (- 53))"
    unfolding u53_def by (subst p2_add) simp
  also have "\<dots> = 2 ^ 970" by simp
  finally have a: "(2::real) ^ 1023 * u53 = 2 ^ 970" .
  have "eta \<le> 2 powi 0" unfolding eta_def by (rule powi2_mono) simp
  hence b: "eta \<le> 1" by simp
  have "(2::real) ^ 1023 + (2 ^ 970 + 1) \<le> max_finite" by (simp add: max_finite_def)
  thus ?thesis using a b by linarith
qed

lemma round64_fin:
  assumes "\<bar>v\<bar> \<le> 2 ^ 1023"
  shows "round64 v = Fin (nearest v)"
proof (cases "v = 0")
  case True thus ?thesis by (simp add: round64_def)
next
  case False
  have "\<bar>nearest v\<bar> \<le> \<bar>v\<bar> + \<bar>nearest v - v\<bar>" by linarith
  also have "\<dots> \<le> \<bar>v\<bar> + (\<bar>v\<bar> * u53 + eta)"
    using nearest_err[of v] by linarith
  also have "\<dots> \<le> 2 ^ 1023 + (2 ^ 1023 * u53 + eta)"
    using assms by (intro add_mono mult_right_mono) simp_all
  also have "\<dots> \<le> max_finite" by (rule no_overflow_bound)
  finally have "\<not> max_finite < \<bar>nearest v\<bar>" by simp
  thus ?thesis using False by (simp only: round64_def if_False)
qed

lemma nearest_exact:
  assumes v: "v = of_int m * 2 powi e" and m: "\<bar>m\<bar> < 2 ^ 53" and e: "- 1074 \<le> e"
  shows "nearest v = v"
proof (cases "m = 0")
  case True thus ?thesis using v by simp
next
  case False
  hence nz: "v \<noteq> 0" using v by simp
  have "\<bar>v\<bar> = of_int \<bar>m\<bar> * 2 powi e" using v by (simp add: abs_mult)
  also have "\<dots> < 2 powi 53 * 2 powi e"
  proof (rule mult_strict_right_mono)
    have "real_of_int \<bar>m\<bar> < real_of_int (2 ^ 53)" using m by (simp only: of_int_less_iff)
    thus "real_of_int \<bar>m\<bar> < 2 powi 53" by simp
  qed simp
  also have "\<dots> = 2 powi (53 + e)" by (simp only: p2_add)
  finally have "expo v < 53 + e" by (rule expo_less[OF nz])
  define k where "k = max (expo v) (- 1022) - 52"
  have ke: "k \<le> e" using \<open>expo v < 53 + e\<close> e by (simp add: k_def)
  have u: "ulp v = 2 powi k" by (simp only: ulp_def k_def)
  have "(2::real) powi e = 2 powi ((e - k) + k)" by simp
  also have "\<dots> = 2 powi (e - k) * (2::real) powi k" by (rule p2_add)
  finally have s: "(2::real) powi e = 2 powi (e - k) * (2::real) powi k" .
  have p: "(2::real) powi (e - k) = of_int (2 ^ nat (e - k))" using ke by (simp add: power_int_def)
  have "v / ulp v = v / 2 powi k" by (simp only: u)
  also have "\<dots> = of_int m * (2 powi (e - k) * 2 powi k) / 2 powi k" using v s by simp
  also have "\<dots> = of_int m * 2 powi (e - k)" by simp
  also have "\<dots> = of_int (m * 2 ^ nat (e - k))" unfolding p by (simp only: of_int_mult)
  finally have "rne (v / ulp v) = m * 2 ^ nat (e - k)" by (simp only: rne_int)
  hence "nearest v = of_int (m * 2 ^ nat (e - k)) * 2 powi k" by (simp only: nearest_def u)
  also have "\<dots> = of_int m * (2 powi (e - k) * 2 powi k)"
    unfolding p by (simp only: of_int_mult mult.assoc)
  also have "\<dots> = v" unfolding v s ..
  finally show ?thesis .
qed

lemma round64_exact:
  assumes v: "v = of_int m * 2 powi e" and m: "\<bar>m\<bar> < 2 ^ 53" and e: "- 1074 \<le> e" "e \<le> 971"
  shows "round64 v = Fin v"
proof -
  have n: "nearest v = v" by (rule nearest_exact[OF v m e(1)])
  have "\<bar>m\<bar> \<le> 2 ^ 53 - 1" using m by simp
  hence "real_of_int \<bar>m\<bar> \<le> real_of_int (2 ^ 53 - 1)" by (simp only: of_int_le_iff)
  hence m': "real_of_int \<bar>m\<bar> \<le> 2 ^ 53 - 1" by simp
  have "(2::real) powi e \<le> 2 powi 971" using e(2) by (rule powi2_mono)
  hence e': "(2::real) powi e \<le> 2 ^ 971" by simp
  have "\<bar>v\<bar> = of_int \<bar>m\<bar> * 2 powi e" using v by (simp add: abs_mult)
  also have "\<dots> \<le> (2 ^ 53 - 1) * 2 ^ 971"
    by (rule mult_mono[OF m' e']) simp_all
  finally have "\<bar>v\<bar> \<le> max_finite" by (simp only: max_finite_eq)
  hence "\<not> max_finite < \<bar>nearest v\<bar>" by (simp add: n)
  thus ?thesis by (cases "v = 0") (simp_all add: round64_def n)
qed

lemma nearest_underflow:
  assumes "\<bar>v\<bar> < eta"
  shows "nearest v = 0"
proof (cases "v = 0")
  case True thus ?thesis by simp
next
  case False
  have "eta \<le> 2 powi (- 1022)" unfolding eta_def by (rule powi2_mono) simp
  hence "\<bar>v\<bar> < 2 powi (- 1022)" using assms by linarith
  hence "expo v < - 1022" by (rule expo_less[OF False])
  hence u: "ulp v = 2 powi (- 1074)" by (intro ulp_subnormal) simp
  have "eta = 2 powi (- 1074 + (- 1))" by (simp only: eta_def) simp
  also have "\<dots> = ulp v * (1 / 2)" unfolding u by (subst p2_add) simp
  finally have "\<bar>v\<bar> < ulp v * (1 / 2)" using assms by simp
  hence "\<bar>v\<bar> / ulp v < 1 / 2" by (simp add: pos_divide_less_eq mult.commute)
  hence "\<bar>v / ulp v\<bar> < 1 / 2" by simp
  hence lo: "- (1 / 2) < v / ulp v" and hi: "v / ulp v < 1 / 2" by (simp_all only: abs_less_iff) linarith+
  define q where "q = v / ulp v"
  have lo': "- (1 / 2) < q" and hi': "q < 1 / 2" using lo hi by (simp_all only: q_def)
  have "rne q = 0"
  proof (cases "0 \<le> q")
    case True
    have "\<lfloor>q\<rfloor> = 0" by (rule floor_unique) (use True hi' in simp_all)
    thus ?thesis using hi' True by (simp add: rne_def)
  next
    case False
    have "\<lfloor>q\<rfloor> = - 1" by (rule floor_unique) (use False lo' in simp_all)
    thus ?thesis using lo' False by (simp add: rne_def)
  qed
  hence "rne (v / ulp v) = 0" by (simp only: q_def)
  thus ?thesis by (simp add: nearest_def)
qed

lemma round64_underflow: "\<bar>v\<bar> < eta \<Longrightarrow> round64 v = Fin 0"
  by (simp add: round64_def nearest_underflow)

section \<open>Doubles that round to themselves\<close>

lemma round64_zero [simp]: "round64 0 = Fin 0"
  by (simp add: round64_def)

lemma round64_of_int:
  assumes "\<bar>k\<bar> < 2 ^ 53"
  shows "round64 (of_int k) = Fin (of_int k)"
  by (rule round64_exact[of _ k 0]) (use assms in simp_all)

lemma round64_numeral [simp]:
  "(numeral n :: int) < 2 ^ 53 \<Longrightarrow> round64 (numeral n) = Fin (numeral n)"
  using round64_of_int[of "numeral n"] by simp

lemma round64_neg_numeral [simp]:
  "(numeral n :: int) < 2 ^ 53 \<Longrightarrow> round64 (- numeral n) = Fin (- numeral n)"
  using round64_of_int[of "- numeral n"] by simp

lemma round64_one [simp]: "round64 1 = Fin 1"
  using round64_of_int[of 1] by simp

lemma round64_neg_one [simp]: "round64 (- 1) = Fin (- 1)"
  using round64_of_int[of "- 1"] by simp

lemma round64_half [simp]: "round64 (1 / 2) = Fin (1 / 2)"
  by (rule round64_exact[of _ 1 "- 1"]) simp_all

lemma round64_tiny:
  assumes "\<bar>k\<bar> < 2 ^ 53"
  shows "round64 (of_int k * tiny) = Fin (of_int k * tiny)"
  unfolding tiny_def by (rule round64_exact[of _ k "- 1074"]) (use assms in simp_all)

lemma tiny_pos [simp]: "0 < tiny"
  by (simp only: tiny_def zero_less_power_int zero_less_numeral)

lemma tiny_sq: "tiny * tiny = 2 powi (- 2148)"
  unfolding tiny_def by (subst p2_add[symmetric]) simp

lemma round64_tiny_sq:
  assumes "\<bar>k\<bar> < 2 ^ 1000"
  shows "round64 (of_int k * (tiny * tiny)) = Fin 0"
proof (rule round64_underflow)
  have "\<bar>of_int k * (tiny * tiny)\<bar> = of_int \<bar>k\<bar> * 2 powi (- 2148)"
    by (simp add: abs_mult tiny_sq)
  also have "\<dots> \<le> 2 powi 1000 * 2 powi (- 2148)"
  proof (rule mult_right_mono)
    have "real_of_int \<bar>k\<bar> \<le> real_of_int (2 ^ 1000)" using assms by (simp only: of_int_le_iff)
    thus "real_of_int \<bar>k\<bar> \<le> 2 powi 1000" by simp
  qed simp
  also have "\<dots> = 2 powi (1000 + (- 2148))" by (simp only: p2_add)
  also have "\<dots> < 2 powi (- 1075)" by (rule powi2_strict_mono) simp
  finally show "\<bar>of_int k * (tiny * tiny)\<bar> < eta" by (simp only: eta_def)
qed

section \<open>The order of doubles\<close>

lemma dlt_irrefl [simp]: "\<not> dlt a a"
  by (cases a) simp_all





lemma fmin_commute: "fmin a b = fmin b a"
  by (cases a; cases b) auto

lemma fmax_commute: "fmax a b = fmax b a"
  by (cases a; cases b) auto

lemma DBL_MAX_not_NaN [simp]: "DBL_MAX \<noteq> NaN"
  by (simp add: DBL_MAX_def)

lemmas double_ops = zero_double_def one_double_def plus_double_def uminus_double_def
  minus_double_def times_double_def divide_double_def less_double_def less_eq_double_def

section \<open>Edge extraction: properties\<close>

lemma get_edges_from_map:
  "get_edges_from shp i = map (edge_at shp) [i..<length shp]"
proof (induction shp i rule: get_edges_from.induct)
  case (1 shp i)
  show ?case
  proof (cases "i < length shp")
    case True
    then have "get_edges_from shp i = edge_at shp i # get_edges_from shp (i + 1)"
      by (subst get_edges_from.simps) (simp add: edge_at_def)
    also have "\<dots> = edge_at shp i # map (edge_at shp) [Suc i..<length shp]"
      using 1 True by simp
    also have "\<dots> = map (edge_at shp) [i..<length shp]"
      using True by (simp add: upt_conv_Cons)
    finally show ?thesis .
  next
    case False
    then show ?thesis by (subst get_edges_from.simps) simp
  qed
qed

lemma get_edges_map: "get_edges shp = map (edge_at shp) [0..<length shp]"
  by (simp add: get_edges_def get_edges_from_map)

text \<open>
  The store version, started on any extension \<open>h0 @ ext\<close> of a store \<open>h0\<close> that
  holds the vertices: it appends one cell per remaining edge and never writes below
  the end of the store.
\<close>

lemma get_edges_st_from_eq:
  assumes valid: "\<forall>a\<in>set shp. a < length h0"
  shows "get_edges_st_from (h0 @ ext) shp i edges =
       ((h0 @ ext) @ map (edge_at (map ((!) h0) shp)) [i..<length shp],
        edges @ [length (h0 @ ext)..<length (h0 @ ext) + (length shp - i)])"
proof (induction "length shp - i" arbitrary: i ext edges)
  case 0
  then have "\<not> i < length shp" by simp
  then show ?case by (subst get_edges_st_from.simps) simp
next
  case (Suc k)
  then have lt: "i < length shp" by simp
  let ?n = "length shp"
  let ?h = "h0 @ ext"
  let ?v = "vec_subtract (?h ! (shp ! (i mod ?n))) (?h ! (shp ! ((i + 1) mod ?n)))"
  have rd: "?h ! (shp ! j) = h0 ! (shp ! j)" if "j < ?n" for j
  proof -
    have "shp ! j \<in> set shp" using that by simp
    then have "shp ! j < length h0" using valid by blast
    then show ?thesis by (simp add: nth_append)
  qed
  have m: "(i + 1) mod ?n < ?n" using lt by (cases shp) simp_all
  have v: "?v = edge_at (map ((!) h0) shp) i"
    using lt m by (simp add: edge_at_def rd)
  have k: "k = length shp - (i + 1)" using Suc(2) by simp
  have "get_edges_st_from ?h shp i edges =
          get_edges_st_from (h0 @ (ext @ [?v])) shp (i + 1) (edges @ [length ?h])"
    using lt by (subst get_edges_st_from.simps) (simp add: Let_def)
  also have "\<dots> = ((h0 @ (ext @ [?v])) @ map (edge_at (map ((!) h0) shp)) [i + 1..<length shp],
        (edges @ [length ?h]) @
          [length (h0 @ (ext @ [?v]))..<length (h0 @ (ext @ [?v])) + (length shp - (i + 1))])"
    by (rule Suc(1)[OF k])
  also have "\<dots> = (?h @ map (edge_at (map ((!) h0) shp)) [i..<length shp],
        edges @ [length ?h..<length ?h + (length shp - i)])"
  proof -
    have a: "[i..<length shp] = i # [i + 1..<length shp]" using lt by (simp add: upt_conv_Cons)
    have b: "[length ?h..<length ?h + (length shp - i)] =
        length ?h # [length ?h + 1..<length ?h + 1 + (length shp - (i + 1))]"
      using lt by (simp add: upt_conv_Cons Suc_diff_Suc)
    show ?thesis unfolding a b using v by simp
  qed
  finally show ?case .
qed

lemma get_edges_st_eq:
  assumes valid: "\<forall>a\<in>set shp. a < length h"
  shows "get_edges_st h shp =
       (h @ get_edges (map ((!) h) shp), [length h..<length h + length shp])"
  using get_edges_st_from_eq[OF valid, of "[]" 0 "[]"]
  by (simp add: get_edges_st_def get_edges_map)

text \<open>
  C9. Edge extraction. Given a list of \<open>N\<close> valid vertex pointers, \<^verbatim>\<open>get_edges\<close>
  returns exactly \<open>N\<close> edge pointers, the cell behind the \<open>i\<close>-th holds
  \<open>vertex[i] - vertex[(i + 1) mod N]\<close> for every \<open>i < N\<close>, and every cell that
  existed before the call (so every vertex of the input list) holds the value it held
  before. The values of the new cells are those of the function on values used by the
  detector. This holds for every \<open>N\<close>, in particular for \<open>N \<ge> 3\<close>.
\<close>

theorem get_edges_spec:
  assumes "\<forall>a\<in>set shp. a < length h"
    and "get_edges_st h shp = (h', edges)"
  shows "length edges = length shp
    \<and> (\<forall>i<length shp. h' ! (edges ! i) =
           vec_subtract (h ! (shp ! i)) (h ! (shp ! ((i + 1) mod length shp))))
    \<and> (\<forall>a<length h. h' ! a = h ! a)
    \<and> map ((!) h') edges = get_edges (map ((!) h) shp)"
proof -
  let ?es = "get_edges (map ((!) h) shp)"
  have h': "h' = h @ ?es" and e: "edges = [length h..<length h + length shp]"
    using get_edges_st_eq[OF assms(1)] assms(2) by simp_all
  have len: "length ?es = length shp" by (simp add: get_edges_map)
  have c1: "length edges = length shp" using e by simp
  have c2: "h' ! (edges ! i) =
           vec_subtract (h ! (shp ! i)) (h ! (shp ! ((i + 1) mod length shp)))"
    if "i < length shp" for i
  proof -
    have "h' ! (edges ! i) = ?es ! i" using that by (simp add: h' e nth_append)
    also have "\<dots> = edge_at (map ((!) h) shp) i" using that by (simp add: get_edges_map)
    also have "\<dots> = vec_subtract (h ! (shp ! i)) (h ! (shp ! ((i + 1) mod length shp)))"
    proof -
      have "(i + 1) mod length shp < length shp" using that by (cases shp) simp_all
      then show ?thesis using that by (simp add: edge_at_def)
    qed
    finally show ?thesis .
  qed
  have c3: "\<forall>a<length h. h' ! a = h ! a" by (simp add: h' nth_append)
  have c4: "map ((!) h') edges = ?es"
    by (rule nth_equalityI) (simp_all add: c1 len h' e nth_append)
  show ?thesis using c1 c2 c3 c4 by blast
qed

theorem get_edges_spec_witness:
  "0 < length tri_store \<and> 1 < length tri_store \<and> 2 < length tri_store
   \<and> get_edges_st tri_store [0, 1, 2] =
       (tri_store @ [pt (- 4) 0, pt 4 (- 3), pt 0 3], [3, 4, 5])
   \<and> length [3, 4, 5 :: nat] = length [0, 1, 2 :: nat]
   \<and> (tri_store @ [pt (- 4) 0, pt 4 (- 3), pt 0 3]) ! 3 =
         vec_subtract (tri_store ! 0) (tri_store ! 1)
   \<and> (tri_store @ [pt (- 4) 0, pt 4 (- 3), pt 0 3]) ! 4 =
         vec_subtract (tri_store ! 1) (tri_store ! 2)
   \<and> (tri_store @ [pt (- 4) 0, pt 4 (- 3), pt 0 3]) ! 5 =
         vec_subtract (tri_store ! 2) (tri_store ! 0)
   \<and> take (length tri_store)
         (tri_store @ [pt (- 4) 0, pt 4 (- 3), pt 0 3]) = tri_store
   \<and> map ((!) (tri_store @ [pt (- 4) 0, pt 4 (- 3), pt 0 3])) [3, 4, 5] =
       get_edges (map ((!) tri_store) [0, 1, 2])"
proof -
  have v: "\<forall>a\<in>set [0, 1, 2]. a < length tri_store"
    by (simp add: tri_store_def)
  have r: "get_edges_st tri_store [0, 1, 2] =
       (tri_store @ [pt (- 4) 0, pt 4 (- 3), pt 0 3], [3, 4, 5])"
    by (simp add: get_edges_st_def get_edges_st_from.simps tri_store_def vec_subtract_def
        Let_def pt_def double_ops)
  have l: "length tri_store = 3" by (simp add: tri_store_def)
  note t = get_edges_spec[OF v r]
  have e0: "(tri_store @ [pt (- 4) 0, pt 4 (- 3), pt 0 3]) ! 3 =
         vec_subtract (tri_store ! 0) (tri_store ! 1)"
    using t[THEN conjunct2, THEN conjunct1, rule_format, of 0] by simp
  have e1: "(tri_store @ [pt (- 4) 0, pt 4 (- 3), pt 0 3]) ! 4 =
         vec_subtract (tri_store ! 1) (tri_store ! 2)"
    using t[THEN conjunct2, THEN conjunct1, rule_format, of 1] by simp
  have e2: "(tri_store @ [pt (- 4) 0, pt 4 (- 3), pt 0 3]) ! 5 =
         vec_subtract (tri_store ! 2) (tri_store ! 0)"
    using t[THEN conjunct2, THEN conjunct1, rule_format, of 2] by simp
  have m: "map ((!) (tri_store @ [pt (- 4) 0, pt 4 (- 3), pt 0 3])) [3, 4, 5] =
       get_edges (map ((!) tri_store) [0, 1, 2])"
    using t by blast
  show ?thesis using r l e0 e1 e2 m by simp
qed

section \<open>The loop of the separating-axis test\<close>

lemma max_finite_gt_1000: "1000 < max_finite"
proof -
  have "(1000::real) < 2 ^ 10 * 1" by simp
  also have "\<dots> \<le> (2 ^ 53 - 1) * 2 ^ 971" by (intro mult_mono) simp_all
  finally show ?thesis by (simp only: max_finite_eq)
qed

lemma separated_on_commute: "separated_on s1 s2 u = separated_on s2 s1 u"
  by (auto simp: separated_on_def Let_def)

lemma overlap_depth_commute: "overlap_depth s1 s2 u = overlap_depth s2 s1 u"
  by (simp add: overlap_depth_def Let_def fmin_commute fmax_commute)

lemma compare_loop_Cons:
  "compare_loop s1 s2 (e # es) mo ax =
     (if separated_on s1 s2 (unit_normal e) then (\<lparr>axis = ax, collided = False\<rparr>, mo)
      else if overlap_depth s1 s2 (unit_normal e) < mo
           then compare_loop s1 s2 es (overlap_depth s1 s2 (unit_normal e)) (unit_normal e)
           else compare_loop s1 s2 es mo ax)"
  by (simp add: separated_on_def overlap_depth_def Let_def)

declare compare_loop.simps(2) [simp del]

lemma compare_loop_sep:
  "e \<in> set es \<Longrightarrow> separated_on s1 s2 (unit_normal e)
     \<Longrightarrow> \<not> collided (fst (compare_loop s1 s2 es mo ax))"
  by (induction es arbitrary: mo ax) (auto simp: compare_loop_Cons)

lemma compare_loop_prefix:
  "separated_on s1 s2 (unit_normal e) \<Longrightarrow>
     compare_loop s1 s2 (pre @ e # post) mo ax =
       (case compare_loop s1 s2 pre mo ax of (c, m) \<Rightarrow> (c\<lparr>collided := False\<rparr>, m))"
  by (induction pre arbitrary: mo ax) (simp_all add: compare_loop_Cons)


lemma find_collision_collided:
  "collided (find_collision b1 b2) \<longleftrightarrow>
     collided (fst (compare_collision (body_shape b1) (body_shape b2) DBL_MAX))
     \<and> collided (fst (compare_collision (body_shape b2) (body_shape b1) DBL_MAX))"
  by (auto simp: find_collision_def body_get_shape_def Let_def split: prod.splits)

text \<open>
  The test on concrete shapes: two triangles far apart, and squares of side two, one
  of them touching the first along an edge. On these shapes every operation of the
  detector is exact.
\<close>

lemma get_edges_tri_a:
  "get_edges tri_a = [pt (- 1) 0, pt 1 (- 1)] @ pt 0 1 # []"
  by (simp add: get_edges_def get_edges_from.simps tri_a_def vec_subtract_def pt_def double_ops)

lemma unit_normal_up: "unit_normal (pt 0 1) = pt (- 1) 0"
  by (simp add: unit_normal_def vec_get_length_def vec_dot_def vec_multiply_def pt_def double_ops)

lemma sep_tri: "separated_on tri_a tri_far (unit_normal (pt 0 1))"
  unfolding unit_normal_up using max_finite_gt_1000
  by (simp add: separated_on_def get_max_min_projections_def
      tri_a_def tri_far_def vec_dot_def Let_def pt_def double_ops DBL_MAX_def)

lemma get_edges_sq_a:
  "get_edges sq_a = [pt (- 2) 0, pt 0 (- 2), pt 2 0, pt 0 2]"
  by (simp add: get_edges_def get_edges_from.simps sq_a_def vec_subtract_def pt_def double_ops)

lemma get_edges_sq_b:
  "get_edges sq_b = [pt (- 2) 0, pt 0 (- 2), pt 2 0, pt 0 2]"
  by (simp add: get_edges_def get_edges_from.simps sq_b_def vec_subtract_def pt_def double_ops)

lemma sqrt_4 [simp]: "sqrt 4 = 2"
  using real_sqrt_abs[of 2] by simp

lemma unit_normals_square:
  "unit_normal (pt (- 2) 0) = pt 0 (- 1)"
  "unit_normal (pt 0 (- 2)) = pt 1 0"
  "unit_normal (pt 2 0) = pt 0 1"
  "unit_normal (pt 0 2) = pt (- 1) 0"
  by (simp_all add: unit_normal_def vec_get_length_def vec_dot_def vec_multiply_def pt_def double_ops)

lemma proj_sq_a:
  "get_max_min_projections sq_a (pt 0 (- 1)) = pt 0 (- 2)"
  "get_max_min_projections sq_a (pt 1 0) = pt 2 0"
  "get_max_min_projections sq_a (pt 0 1) = pt 2 0"
  "get_max_min_projections sq_a (pt (- 1) 0) = pt 0 (- 2)"
  using max_finite_gt_1000
  by (simp_all add: get_max_min_projections_def sq_a_def vec_dot_def Let_def pt_def double_ops DBL_MAX_def)

lemma proj_sq_b:
  "get_max_min_projections sq_b (pt 0 (- 1)) = pt 0 (- 2)"
  "get_max_min_projections sq_b (pt 1 0) = pt 3 1"
  "get_max_min_projections sq_b (pt 0 1) = pt 2 0"
  "get_max_min_projections sq_b (pt (- 1) 0) = pt (- 1) (- 3)"
  using max_finite_gt_1000
  by (simp_all add: get_max_min_projections_def sq_b_def vec_dot_def Let_def pt_def double_ops DBL_MAX_def)

lemma proj_sq_touch:
  "get_max_min_projections sq_touch (pt 0 (- 1)) = pt 0 (- 2)"
  "get_max_min_projections sq_touch (pt 1 0) = pt 4 2"
  using max_finite_gt_1000
  by (simp_all add: get_max_min_projections_def sq_touch_def vec_dot_def Let_def pt_def double_ops DBL_MAX_def)

lemma get_edges_sq_a_split:
  "get_edges sq_a = [pt (- 2) 0] @ pt 0 (- 2) # [pt 2 0, pt 0 2]"
  by (simp add: get_edges_sq_a)

lemma sep_touch: "separated_on sq_a sq_touch (unit_normal (pt 0 (- 2)))"
  by (simp add: unit_normals_square proj_sq_a proj_sq_touch separated_on_def Let_def)
     (simp add: pt_def double_ops)

text \<open>
  C7. Symmetry of the verdict: \<open>find_collision A B\<close> and \<open>find_collision B A\<close>
  return the same \<open>collided\<close> flag, for all bodies.
\<close>

theorem find_collision_symmetric:
  "collided (find_collision body1 body2) = collided (find_collision body2 body1)"
  by (auto simp: find_collision_collided)

text \<open>
  C6. Separation test and early exit. Let \<open>e\<close> be an edge of one of the two shapes
  (\<open>shape1\<close>, with \<open>shape2\<close> the other one) such that on its normalized normal the
  intervals satisfy \<open>minB \<ge> maxA \<or> maxB \<le> minA\<close>. Then \<open>find_collision\<close>
  returns \<open>collided = false\<close>, whichever of the two bodies owns the edge, and the pass
  over \<open>shape1\<close> returns what the loop has computed on the edges before \<open>e\<close>, with
  \<open>collided = false\<close>: no edge after \<open>e\<close> takes part in the result.
\<close>

theorem separation_early_exit:
  assumes "get_edges shape1 = pre @ e # post"
    and "separated_on shape1 shape2 (unit_normal e)"
    and "(body_shape body1 = shape1 \<and> body_shape body2 = shape2)
         \<or> (body_shape body1 = shape2 \<and> body_shape body2 = shape1)"
  shows "\<not> collided (find_collision body1 body2)
    \<and> compare_collision shape1 shape2 min_overlap =
        (case compare_loop shape1 shape2 pre min_overlap VEC_ZERO of
           (c, m) \<Rightarrow> (c\<lparr>collided := False\<rparr>, m))"
proof -
  have mem: "e \<in> set (get_edges shape1)" using assms(1) by simp
  have "\<not> collided (fst (compare_collision shape1 shape2 DBL_MAX))"
    unfolding compare_collision_def using mem assms(2) by (rule compare_loop_sep)
  then have a: "\<not> collided (find_collision body1 body2)"
    using assms(3) by (auto simp: find_collision_collided)
  have b: "compare_collision shape1 shape2 min_overlap =
        (case compare_loop shape1 shape2 pre min_overlap VEC_ZERO of
           (c, m) \<Rightarrow> (c\<lparr>collided := False\<rparr>, m))"
    unfolding compare_collision_def assms(1) using assms(2) by (rule compare_loop_prefix)
  show ?thesis using a b by simp
qed

lemma pre_sq_touch:
  "compare_loop sq_a sq_touch [pt (- 2) 0] DBL_MAX VEC_ZERO =
        (\<lparr>axis = pt 0 (- 1), collided = True\<rparr>, Fin 2)"
proof -
  have "overlap_depth sq_a sq_touch (pt 0 (- 1)) = Fin 2"
    unfolding overlap_depth_def proj_sq_a proj_sq_touch by (simp add: pt_def double_ops)
  moreover have "\<not> separated_on sq_a sq_touch (pt 0 (- 1))"
    unfolding separated_on_def proj_sq_a proj_sq_touch by (simp add: pt_def double_ops)
  ultimately show ?thesis
    using max_finite_gt_1000
    by (simp add: compare_loop_Cons unit_normals_square less_double_def DBL_MAX_def)
qed

theorem separation_early_exit_witness:
  "get_edges tri_a = [pt (- 1) 0, pt 1 (- 1)] @ pt 0 1 # []
   \<and> separated_on tri_a tri_far (unit_normal (pt 0 1))
   \<and> body_shape (body_of tri_far) = tri_far \<and> body_shape (body_of tri_a) = tri_a
   \<and> \<not> collided (find_collision (body_of tri_far) (body_of tri_a))
   \<and> compare_collision tri_a tri_far DBL_MAX =
        (case compare_loop tri_a tri_far [pt (- 1) 0, pt 1 (- 1)] DBL_MAX VEC_ZERO of
           (c, m) \<Rightarrow> (c\<lparr>collided := False\<rparr>, m))
   \<and> get_edges sq_a = [pt (- 2) 0] @ pt 0 (- 2) # [pt 2 0, pt 0 2]
   \<and> x (get_max_min_projections sq_a (unit_normal (pt 0 (- 2)))) = Fin 2
   \<and> y (get_max_min_projections sq_touch (unit_normal (pt 0 (- 2)))) = Fin 2
   \<and> separated_on sq_a sq_touch (unit_normal (pt 0 (- 2)))
   \<and> body_shape (body_of sq_a) = sq_a \<and> body_shape (body_of sq_touch) = sq_touch
   \<and> \<not> collided (find_collision (body_of sq_a) (body_of sq_touch))
   \<and> compare_collision sq_a sq_touch DBL_MAX =
        (\<lparr>axis = pt 0 (- 1), collided = False\<rparr>, Fin 2)"
proof -
  have s: "body_shape (body_of tri_far) = tri_far \<and> body_shape (body_of tri_a) = tri_a"
    by (simp add: body_of_def)
  then have b1: "(body_shape (body_of tri_far) = tri_a \<and> body_shape (body_of tri_a) = tri_far)
         \<or> (body_shape (body_of tri_far) = tri_far \<and> body_shape (body_of tri_a) = tri_a)"
    by simp
  have t: "body_shape (body_of sq_a) = sq_a \<and> body_shape (body_of sq_touch) = sq_touch"
    by (simp add: body_of_def)
  then have b2: "(body_shape (body_of sq_a) = sq_a \<and> body_shape (body_of sq_touch) = sq_touch)
         \<or> (body_shape (body_of sq_a) = sq_touch \<and> body_shape (body_of sq_touch) = sq_a)"
    by simp
  have p: "x (get_max_min_projections sq_a (unit_normal (pt 0 (- 2)))) = Fin 2"
      "y (get_max_min_projections sq_touch (unit_normal (pt 0 (- 2)))) = Fin 2"
    unfolding unit_normals_square proj_sq_a proj_sq_touch by (simp_all add: pt_def)
  from separation_early_exit[OF get_edges_tri_a sep_tri b1, of DBL_MAX]
    separation_early_exit[OF get_edges_sq_a_split sep_touch b2, of DBL_MAX]
    get_edges_tri_a sep_tri s get_edges_sq_a_split sep_touch t p pre_sq_touch
  show ?thesis by simp
qed

section \<open>The running minimum of a pass\<close>




lemma body_of_shape [simp]: "body_shape (body_of s) = s"
  by (simp add: body_of_def)

lemma sq_ab_depths:
  "overlap_depth sq_a sq_b (pt 0 (- 1)) = Fin 2"
  "overlap_depth sq_a sq_b (pt 1 0) = Fin 1"
  "overlap_depth sq_a sq_b (pt 0 1) = Fin 2"
  "overlap_depth sq_a sq_b (pt (- 1) 0) = Fin 1"
  unfolding overlap_depth_def proj_sq_a proj_sq_b by (simp_all add: pt_def double_ops)

lemma sq_ab_not_separated:
  "\<not> separated_on sq_a sq_b (pt 0 (- 1))"
  "\<not> separated_on sq_a sq_b (pt 1 0)"
  "\<not> separated_on sq_a sq_b (pt 0 1)"
  "\<not> separated_on sq_a sq_b (pt (- 1) 0)"
  unfolding separated_on_def proj_sq_a proj_sq_b by (simp_all add: pt_def double_ops)

lemma compare_sq_ab:
  "compare_collision sq_a sq_b DBL_MAX = (\<lparr>axis = pt 1 0, collided = True\<rparr>, Fin 1)"
  using max_finite_gt_1000
  by (simp add: compare_collision_def get_edges_sq_a compare_loop_Cons unit_normals_square
      sq_ab_depths sq_ab_not_separated less_double_def DBL_MAX_def)

lemma compare_sq_ba:
  "compare_collision sq_b sq_a DBL_MAX = (\<lparr>axis = pt 1 0, collided = True\<rparr>, Fin 1)"
  using max_finite_gt_1000
  by (simp add: compare_collision_def get_edges_sq_b compare_loop_Cons unit_normals_square
      sq_ab_depths sq_ab_not_separated less_double_def DBL_MAX_def
      overlap_depth_commute[of sq_b sq_a] separated_on_commute[of sq_b sq_a])

lemma find_collision_sq:
  "find_collision (body_of sq_a) (body_of sq_b) = \<lparr>axis = pt 1 0, collided = True\<rparr>"
  by (simp add: find_collision_def body_get_shape_def compare_sq_ab compare_sq_ba)

lemma collided_sq: "collided (find_collision (body_of sq_a) (body_of sq_b))"
  by (simp add: find_collision_sq)


lemma not_hit_tri: "\<not> collided (find_collision (body_of tri_a) (body_of tri_far))"
proof -
  have "\<not> collided (fst (compare_collision tri_a tri_far DBL_MAX))"
    unfolding compare_collision_def
    by (rule compare_loop_sep[OF _ sep_tri]) (simp add: get_edges_tri_a)
  then show ?thesis by (simp add: find_collision_collided)
qed



section \<open>The detector on shapes of subnormal size\<close>

lemma tiny_nonzero [simp]: "tiny \<noteq> 0"
  using tiny_pos by linarith

lemma tiny_not_neg [simp]: "\<not> tiny < 0"
  using tiny_pos by linarith

lemma sub_zero [simp]: "sub 0 = 0" by (simp add: sub_def)

lemma sub_add [simp]: "sub a + sub b = sub (a + b)"
  by (simp add: sub_def algebra_simps)

lemma sub_minus [simp]: "- sub a = sub (- a)"
  by (simp add: sub_def)

lemma sub_eq_0 [simp]: "sub a = 0 \<longleftrightarrow> a = 0"
  by (simp add: sub_def)

lemma sub_pos [simp]: "0 < sub a \<longleftrightarrow> 0 < a"
  by (simp add: sub_def zero_less_mult_iff)

lemma sub_neg [simp]: "sub a < 0 \<longleftrightarrow> a < 0"
  by (simp add: sub_def mult_less_0_iff)

lemma round64_sub [simp]: "\<bar>k\<bar> < 2 ^ 53 \<Longrightarrow> round64 (sub k) = Fin (sub k)"
  unfolding sub_def by (rule round64_tiny)

lemma round64_sub_mul [simp]:
  assumes "\<bar>a * b\<bar> < 2 ^ 1000"
  shows "round64 (sub a * sub b) = Fin 0"
proof -
  have "sub a * sub b = of_int (a * b) * (tiny * tiny)" by (simp add: sub_def)
  thus ?thesis using round64_tiny_sq[OF assms] by simp
qed

text \<open>
  The length of an edge of subnormal size rounds to zero, \<open>1 / 0\<close> is \<open>+inf\<close>, and
  the components of the axis are infinities (NaN for a zero component of the edge).
\<close>

lemma unit_normal_sub:
  assumes "\<bar>a\<bar> < 2 ^ 53" and "\<bar>b\<bar> < 2 ^ 53"
  shows "unit_normal (pt (sub a) (sub b)) =
           \<lparr>x = dmul PInf (Fin (sub (- b))), y = dmul PInf (Fin (sub a))\<rparr>"
proof -
  have s: "\<bar>a\<bar> * \<bar>a\<bar> < 2 ^ 1000" "\<bar>b\<bar> * \<bar>b\<bar> < 2 ^ 1000"
  proof -
    have "\<bar>a\<bar> * \<bar>a\<bar> \<le> 2 ^ 53 * 2 ^ 53" using assms(1) by (intro mult_mono) simp_all
    thus "\<bar>a\<bar> * \<bar>a\<bar> < 2 ^ 1000" by simp
    have "\<bar>b\<bar> * \<bar>b\<bar> \<le> 2 ^ 53 * 2 ^ 53" using assms(2) by (intro mult_mono) simp_all
    thus "\<bar>b\<bar> * \<bar>b\<bar> < 2 ^ 1000" by simp
  qed
  have m: "- 1 * sub b = sub (- b)" by simp
  show ?thesis
    using assms s
    by (simp add: unit_normal_def vec_get_length_def vec_dot_def vec_multiply_def pt_def
        double_ops abs_mult del: sub_minus mult_minus1 mult_minus_left)
       (simp add: m abs_mult)
qed

lemma get_edges_tiny:
  "get_edges tiny_a = [pt (sub (- 1)) (sub 2), pt (sub (- 2)) (sub 1), pt (sub 3) (sub (- 3))]"
  "get_edges tiny_b = [pt (sub (- 1)) (sub 2), pt (sub (- 2)) (sub 1), pt (sub 3) (sub (- 3))]"
  "get_edges tiny_c = [pt (sub (- 1)) (sub 2), pt (sub (- 2)) (sub 1), pt (sub 3) (sub (- 3))]"
  by (simp_all add: get_edges_def get_edges_from.simps tiny_a_def tiny_b_def tiny_c_def
      vec_subtract_def pt_def double_ops)

lemma unit_normals_tiny:
  "unit_normal (pt (sub (- 1)) (sub 2)) = \<lparr>x = NInf, y = NInf\<rparr>"
  "unit_normal (pt (sub (- 2)) (sub 1)) = \<lparr>x = NInf, y = NInf\<rparr>"
  "unit_normal (pt (sub 3) (sub (- 3))) = \<lparr>x = PInf, y = PInf\<rparr>"
  by (simp_all add: unit_normal_sub)

lemma proj_tiny_down:
  "get_max_min_projections tiny_a \<lparr>x = NInf, y = NInf\<rparr> = \<lparr>x = - DBL_MAX, y = NInf\<rparr>"
  "get_max_min_projections tiny_b \<lparr>x = NInf, y = NInf\<rparr> = \<lparr>x = - DBL_MAX, y = NInf\<rparr>"
  "get_max_min_projections tiny_c \<lparr>x = NInf, y = NInf\<rparr> = \<lparr>x = - DBL_MAX, y = NInf\<rparr>"
  by (simp_all add: get_max_min_projections_def tiny_a_def tiny_b_def tiny_c_def vec_dot_def
      pt_def double_ops DBL_MAX_def)

lemma proj_tiny_up:
  "get_max_min_projections tiny_a \<lparr>x = PInf, y = PInf\<rparr> = \<lparr>x = PInf, y = DBL_MAX\<rparr>"
  "get_max_min_projections tiny_b \<lparr>x = PInf, y = PInf\<rparr> = \<lparr>x = PInf, y = DBL_MAX\<rparr>"
  "get_max_min_projections tiny_c \<lparr>x = PInf, y = PInf\<rparr> = \<lparr>x = PInf, y = DBL_MAX\<rparr>"
  by (simp_all add: get_max_min_projections_def tiny_a_def tiny_b_def tiny_c_def vec_dot_def
      pt_def double_ops DBL_MAX_def)

text \<open>
  On either kind of axis the test of line 75 fails for any two of the three triangles,
  and the overlap depth is \<open>+inf\<close>, which is not below the sentinel.
\<close>

lemma tiny_pass:
  assumes "s1 \<in> {tiny_a, tiny_b, tiny_c}" and "s2 \<in> {tiny_a, tiny_b, tiny_c}"
  shows "compare_collision s1 s2 DBL_MAX = (\<lparr>axis = VEC_ZERO, collided = True\<rparr>, DBL_MAX)"
proof -
  have d: "get_max_min_projections s \<lparr>x = NInf, y = NInf\<rparr> = \<lparr>x = - DBL_MAX, y = NInf\<rparr>"
    and u: "get_max_min_projections s \<lparr>x = PInf, y = PInf\<rparr> = \<lparr>x = PInf, y = DBL_MAX\<rparr>"
    and e: "get_edges s = [pt (sub (- 1)) (sub 2), pt (sub (- 2)) (sub 1), pt (sub 3) (sub (- 3))]"
    if "s \<in> {tiny_a, tiny_b, tiny_c}" for s
    using that proj_tiny_down proj_tiny_up get_edges_tiny by auto
  have sd: "\<not> separated_on s1 s2 \<lparr>x = NInf, y = NInf\<rparr>"
    and su: "\<not> separated_on s1 s2 \<lparr>x = PInf, y = PInf\<rparr>"
    unfolding separated_on_def d[OF assms(1)] d[OF assms(2)] u[OF assms(1)] u[OF assms(2)]
    by (simp_all add: double_ops DBL_MAX_def)
  have od: "overlap_depth s1 s2 \<lparr>x = NInf, y = NInf\<rparr> = PInf"
    and ou: "overlap_depth s1 s2 \<lparr>x = PInf, y = PInf\<rparr> = PInf"
    unfolding overlap_depth_def d[OF assms(1)] d[OF assms(2)] u[OF assms(1)] u[OF assms(2)]
    by (simp_all add: double_ops DBL_MAX_def)
  show ?thesis
    by (simp add: compare_collision_def e[OF assms(1)] compare_loop_Cons unit_normals_tiny
        sd su od ou less_double_def DBL_MAX_def)
qed

lemma tiny_find_collision:
  assumes "s1 \<in> {tiny_a, tiny_b, tiny_c}" and "s2 \<in> {tiny_a, tiny_b, tiny_c}"
  shows "find_collision (body_of s1) (body_of s2) = \<lparr>axis = VEC_ZERO, collided = True\<rparr>"
  by (simp add: find_collision_def body_get_shape_def tiny_pass[OF assms] tiny_pass[OF assms(2,1)]
      less_double_def)


text \<open>
  An edge parallel to the \<open>x\<close> axis: the axis has a NaN component, every projection is
  NaN, both intervals keep their start values and the test of line 75 holds.
\<close>

lemma get_edges_tiny_in:
  "get_edges tiny_in = pt (sub (- 5)) 0 # [pt (sub 5) (sub (- 5)), pt 0 (sub 5)]"
  "get_edges tiny_out = pt (sub (- 30)) 0 # [pt (sub 30) (sub (- 40)), pt 0 (sub 40)]"
  by (simp_all add: get_edges_def get_edges_from.simps tiny_in_def tiny_out_def
      vec_subtract_def pt_def double_ops)

lemma unit_normal_flat:
  "unit_normal (pt (sub (- 5)) 0) = \<lparr>x = NaN, y = NInf\<rparr>"
  "unit_normal (pt (sub (- 30)) 0) = \<lparr>x = NaN, y = NInf\<rparr>"
  using unit_normal_sub[of "- 5" 0] unit_normal_sub[of "- 30" 0] by simp_all

lemma dlt_NaN [simp]: "\<not> dlt a NaN" "\<not> dlt NaN a"
  by (cases a; simp)+

lemma dle_NaN [simp]: "\<not> dle a NaN" "\<not> dle NaN a"
  by (cases a; simp)+

lemma max_finite_nonneg [simp]: "0 \<le> max_finite"
  by (rule less_imp_le[OF max_finite_pos])

lemma max_min_loop_NaN:
  "max_min_loop s \<lparr>x = NaN, y = d\<rparr> mn mx = (mn, mx)"
proof (induction s arbitrary: mn mx)
  case Nil show ?case by simp
next
  case (Cons v s)
  have "vec_dot v \<lparr>x = NaN, y = d\<rparr> = NaN"
    by (cases "x v"; cases "y v * d") (simp_all add: vec_dot_def double_ops)
  then show ?case using Cons by (simp add: double_ops)
qed

lemma separated_on_NaN: "separated_on s1 s2 \<lparr>x = NaN, y = d\<rparr>"
  by (simp add: separated_on_def get_max_min_projections_def max_min_loop_NaN double_ops DBL_MAX_def)

lemma tiny_in_out:
  "\<not> collided (find_collision (body_of tiny_in) (body_of tiny_out))"
  "\<not> collided (find_collision (body_of tiny_out) (body_of tiny_in))"
proof -
  have a: "\<not> collided (fst (compare_collision tiny_in tiny_out DBL_MAX))"
    by (simp add: compare_collision_def get_edges_tiny_in compare_loop_Cons unit_normal_flat
        separated_on_NaN)
  show "\<not> collided (find_collision (body_of tiny_in) (body_of tiny_out))"
    "\<not> collided (find_collision (body_of tiny_out) (body_of tiny_in))"
    using a by (simp_all add: find_collision_collided)
qed

section \<open>The axis of a completed detection\<close>




section \<open>Polygons of subnormal size\<close>

lemma sub_inj [simp]: "sub a = sub b \<longleftrightarrow> a = b"
  by (simp add: sub_def)

lemma val_Fin [simp]: "val (Fin r) = r"
  by (simp add: val_def)

lemma point_pt [simp]: "point (pt a b) = \<lparr>x = a, y = b\<rparr>"
  by (simp add: point_def pt_def)

lemma tiny_sq_pos: "0 < tiny * tiny"
  by (rule mult_pos_pos) simp_all

lemma orient_sub:
  "orient \<lparr>x = sub a1, y = sub a2\<rparr> \<lparr>x = sub b1, y = sub b2\<rparr> \<lparr>x = sub p1, y = sub p2\<rparr>
     = of_int ((b1 - a1) * (p2 - a2) - (b2 - a2) * (p1 - a1)) * (tiny * tiny)"
  by (simp add: orient_def sub_def algebra_simps)

lemma scaled_sign_pos:
  fixes c :: real
  assumes "0 < c"
  shows "0 \<le> of_int k * c \<longleftrightarrow> 0 \<le> k" and "0 < of_int k * c \<longleftrightarrow> 0 < k"
  using assms by (simp_all add: zero_le_mult_iff zero_less_mult_iff not_le not_less less_imp_le)

lemmas scaled_sign [simp] = scaled_sign_pos[OF tiny_sq_pos]

lemma all_less_3: "(\<forall>i<Suc (Suc (Suc 0)). P i) \<longleftrightarrow> P 0 \<and> P 1 \<and> P 2"
proof
  assume "\<forall>i<Suc (Suc (Suc 0)). P i"
  then show "P 0 \<and> P 1 \<and> P 2" by simp
next
  assume a: "P 0 \<and> P 1 \<and> P 2"
  show "\<forall>i<Suc (Suc (Suc 0)). P i"
  proof (intro allI impI)
    fix i :: nat assume "i < Suc (Suc (Suc 0))"
    then have "i = 0 \<or> i = 1 \<or> i = 2" by linarith
    then show "P i" using a by auto
  qed
qed

lemma points_tiny:
  "points tiny_a = [\<lparr>x = sub 1, y = sub 4\<rparr>, \<lparr>x = sub 2, y = sub 2\<rparr>, \<lparr>x = sub 4, y = sub 1\<rparr>]"
  "points tiny_b = [\<lparr>x = sub 101, y = sub 104\<rparr>, \<lparr>x = sub 102, y = sub 102\<rparr>, \<lparr>x = sub 104, y = sub 101\<rparr>]"
  "points tiny_in = [\<lparr>x = sub 5, y = sub 5\<rparr>, \<lparr>x = sub 10, y = sub 5\<rparr>, \<lparr>x = sub 5, y = sub 10\<rparr>]"
  "points tiny_out = [\<lparr>x = sub 0, y = sub 0\<rparr>, \<lparr>x = sub 30, y = sub 0\<rparr>, \<lparr>x = sub 0, y = sub 40\<rparr>]"
  by (simp_all add: points_def tiny_a_def tiny_b_def tiny_in_def tiny_out_def)

lemma convex_tiny: "convex_ccw (points tiny_a)" "convex_ccw (points tiny_b)"
  unfolding points_tiny
  by (simp_all add: convex_ccw_def edge_side_def all_less_3 orient_sub)

lemma disjoint_tiny: "\<not> (inside (points tiny_a) q \<and> inside (points tiny_b) q)"
proof
  assume a: "inside (points tiny_a) q \<and> inside (points tiny_b) q"
  then have e1: "0 \<le> orient \<lparr>x = sub 4, y = sub 1\<rparr> \<lparr>x = sub 1, y = sub 4\<rparr> q"
    and e2: "0 \<le> orient \<lparr>x = sub 101, y = sub 104\<rparr> \<lparr>x = sub 102, y = sub 102\<rparr> q"
    and e3: "0 \<le> orient \<lparr>x = sub 102, y = sub 102\<rparr> \<lparr>x = sub 104, y = sub 101\<rparr> q"
    unfolding points_tiny by (simp_all add: inside_def edge_side_def all_less_3)
  from e1 e2 e3 tiny_sq_pos show False
    by (simp add: orient_def sub_def algebra_simps)
qed

lemma inside_tiny:
  "strictly_inside \<lparr>x = sub 5, y = sub 5\<rparr> (points tiny_out)"
  "strictly_inside \<lparr>x = sub 10, y = sub 5\<rparr> (points tiny_out)"
  "strictly_inside \<lparr>x = sub 5, y = sub 10\<rparr> (points tiny_out)"
  unfolding points_tiny by (simp_all add: strictly_inside_def orient_sub del: sub_zero)

lemma no_repeated_3:
  "no_repeated [a, b, c] \<longleftrightarrow> a \<noteq> b \<and> b \<noteq> c \<and> c \<noteq> a"
  by (simp add: no_repeated_def all_less_3)

lemma no_repeated_tiny: "no_repeated tiny_a" "no_repeated tiny_c"
  by (simp_all add: tiny_a_def tiny_c_def no_repeated_3 pt_def)

text \<open>
  The claims as the spec states them fail on such polygons. Two convex counterclockwise
  triangles with no common point are reported as colliding, in both orders.
\<close>

theorem disjoint_reported_collided:
  "convex_ccw (points tiny_a) \<and> convex_ccw (points tiny_b)
   \<and> (\<forall>q. \<not> (inside (points tiny_a) q \<and> inside (points tiny_b) q))
   \<and> collided (find_collision (body_of tiny_a) (body_of tiny_b))
   \<and> collided (find_collision (body_of tiny_b) (body_of tiny_a))"
  using convex_tiny disjoint_tiny by (simp add: tiny_find_collision)

text \<open>
  A triangle whose three vertices lie strictly inside another triangle is reported as
  not colliding with it, in both orders.
\<close>

theorem containment_missed:
  "points tiny_in = [\<lparr>x = sub 5, y = sub 5\<rparr>, \<lparr>x = sub 10, y = sub 5\<rparr>, \<lparr>x = sub 5, y = sub 10\<rparr>]
   \<and> strictly_inside \<lparr>x = sub 5, y = sub 5\<rparr> (points tiny_out)
   \<and> strictly_inside \<lparr>x = sub 10, y = sub 5\<rparr> (points tiny_out)
   \<and> strictly_inside \<lparr>x = sub 5, y = sub 10\<rparr> (points tiny_out)
   \<and> \<not> collided (find_collision (body_of tiny_out) (body_of tiny_in))
   \<and> \<not> collided (find_collision (body_of tiny_in) (body_of tiny_out))"
  using inside_tiny tiny_in_out points_tiny(3) by simp

text \<open>
  Two triangles without repeated vertices are reported as colliding with an axis of
  length zero.
\<close>

theorem axis_not_unit:
  "no_repeated (body_shape (body_of tiny_c)) \<and> no_repeated (body_shape (body_of tiny_a))
   \<and> collided (find_collision (body_of tiny_c) (body_of tiny_a))
   \<and> axis (find_collision (body_of tiny_c) (body_of tiny_a)) = pt 0 0
   \<and> norm2 (point (axis (find_collision (body_of tiny_c) (body_of tiny_a)))) = 0
   \<and> vec_get_length (axis (find_collision (body_of tiny_c) (body_of tiny_a))) = Fin 0"
  using no_repeated_tiny
  by (simp add: tiny_find_collision VEC_ZERO_def norm2_def point_def
      vec_get_length_def vec_dot_def pt_def double_ops)

section \<open>Debouncing and the impulse\<close>

lemma tick_flag: "colliding (snd (collision_tick aux b1 b2)) = hit (b1, b2)"
  by (simp add: collision_tick_def hit_def Let_def)

lemma tick_call:
  "fst (collision_tick aux b1 b2) =
     (if hit (b1, b2) \<and> \<not> colliding aux then Some (expected_call aux (b1, b2)) else None)"
  by (simp add: collision_tick_def hit_def expected_call_def Let_def)

lemma tick_consts:
  "handler_aux (snd (collision_tick aux b1 b2)) = handler_aux aux"
  "force_const (snd (collision_tick aux b1 b2)) = force_const aux"
  by (simp_all add: collision_tick_def Let_def)

lemma expected_call_cong:
  "handler_aux a = handler_aux b \<Longrightarrow> force_const a = force_const b
     \<Longrightarrow> expected_call a t = expected_call b t"
  by (simp add: expected_call_def)

lemma run_ticks_Cons:
  "run_ticks aux ((b1, b2) # rest) =
     (fst (collision_tick aux b1 b2) # fst (run_ticks (snd (collision_tick aux b1 b2)) rest),
      snd (run_ticks (snd (collision_tick aux b1 b2)) rest))"
  by (simp split: prod.splits)

declare run_ticks.simps(2) [simp del]

lemma run_ticks_length: "length (fst (run_ticks aux ticks)) = length ticks"
proof (induction ticks arbitrary: aux)
  case Nil
  then show ?case by simp
next
  case (Cons t rest)
  obtain b1 b2 where t: "t = (b1, b2)" by (cases t)
  show ?case by (simp add: t run_ticks_Cons Cons.IH)
qed

lemma run_ticks_flag:
  "ticks \<noteq> [] \<Longrightarrow> colliding (snd (run_ticks aux ticks)) = hit (last ticks)"
proof (induction ticks arbitrary: aux)
  case Nil
  then show ?case by simp
next
  case (Cons t rest)
  obtain b1 b2 where t: "t = (b1, b2)" by (cases t)
  show ?case
  proof (cases "rest = []")
    case True
    then show ?thesis by (simp add: t run_ticks_Cons tick_flag)
  next
    case False
    then show ?thesis using Cons.IH[OF False, of "snd (collision_tick aux b1 b2)"]
      by (simp add: t run_ticks_Cons)
  qed
qed

lemma run_ticks_nth:
  "i < length ticks \<Longrightarrow>
     fst (run_ticks aux ticks) ! i =
       (if hit (ticks ! i) \<and> \<not> (if i = 0 then colliding aux else hit (ticks ! (i - 1)))
        then Some (expected_call aux (ticks ! i)) else None)"
proof (induction ticks arbitrary: aux i)
  case Nil
  then show ?case by simp
next
  case (Cons t rest)
  obtain b1 b2 where t: "t = (b1, b2)" by (cases t)
  let ?aux1 = "snd (collision_tick aux b1 b2)"
  have run: "fst (run_ticks aux (t # rest)) = fst (collision_tick aux b1 b2) # fst (run_ticks ?aux1 rest)"
    by (simp add: t run_ticks_Cons)
  show ?case
  proof (cases i)
    case 0
    then show ?thesis by (simp add: t run_ticks_Cons tick_call)
  next
    case (Suc j)
    then have j: "j < length rest" using Cons.prems by simp
    have ec: "expected_call ?aux1 (rest ! j) = expected_call aux (rest ! j)"
      by (rule expected_call_cong) (simp_all add: tick_consts)
    have prev: "(if j = 0 then colliding ?aux1 else hit (rest ! (j - 1))) = hit (((b1, b2) # rest) ! j)"
      by (cases j) (simp_all add: tick_flag)
    show ?thesis using Cons.IH[OF j, of ?aux1] prev by (simp add: t run_ticks_Cons Suc ec)
  qed
qed

text \<open>
  C3. Collision debouncing. In a run over any sequence of ticks, tick \<open>i\<close> invokes the
  handler exactly when the detector reports a collision at tick \<open>i\<close> and did not at
  tick \<open>i - 1\<close> (for the first tick: and the flag was clear at the start); the
  invocation carries the two bodies, the axis, the auxiliary value and the force
  constant. So the handler fires once on each transition from not colliding to
  colliding, not again while the collision lasts, and again only after a tick without
  collision. After the run the flag is the verdict of the last tick.
\<close>

theorem collision_debounce:
  assumes "run_ticks aux ticks = (calls, aux')" and "i < length ticks"
  shows "length calls = length ticks
    \<and> calls ! i =
        (if hit (ticks ! i) \<and> \<not> (if i = 0 then colliding aux else hit (ticks ! (i - 1)))
         then Some (expected_call aux (ticks ! i)) else None)
    \<and> colliding aux' = hit (last ticks)"
proof -
  have "ticks \<noteq> []" using assms(2) by auto
  then show ?thesis
    using run_ticks_length[of aux ticks] run_ticks_nth[OF assms(2), of aux]
      run_ticks_flag[of ticks aux] assms(1) by simp
qed

theorem collision_debounce_witness:
  "run_ticks aux0 ticks0 = (fst (run_ticks aux0 ticks0), snd (run_ticks aux0 ticks0))
   \<and> 3 < length ticks0
   \<and> length (fst (run_ticks aux0 ticks0)) = 4
   \<and> fst (run_ticks aux0 ticks0) ! 0 =
       Some (body_of sq_a, body_of sq_b, pt 1 0, (), 0)
   \<and> fst (run_ticks aux0 ticks0) ! 1 = None
   \<and> fst (run_ticks aux0 ticks0) ! 2 = None
   \<and> fst (run_ticks aux0 ticks0) ! 3 =
       Some (body_of sq_a, body_of sq_b, pt 1 0, (), 0)
   \<and> colliding (snd (run_ticks aux0 ticks0))"
proof -
  have r: "run_ticks aux0 ticks0 = (fst (run_ticks aux0 ticks0), snd (run_ticks aux0 ticks0))"
    by simp
  have l: "length ticks0 = 4" by (simp add: ticks0_def)
  have h: "hit (ticks0 ! 0)" "hit (ticks0 ! 1)" "\<not> hit (ticks0 ! 2)" "hit (ticks0 ! 3)"
      "hit (last ticks0)"
    by (simp_all add: ticks0_def hit_def collided_sq not_hit_tri)
  have c: "expected_call aux0 (ticks0 ! 0) = (body_of sq_a, body_of sq_b, pt 1 0, (), 0)"
      "expected_call aux0 (ticks0 ! 3) = (body_of sq_a, body_of sq_b, pt 1 0, (), 0)"
    by (simp_all add: expected_call_def ticks0_def aux0_def find_collision_sq)
  have f: "\<not> colliding aux0" by (simp add: aux0_def)
  have i0: "0 < length ticks0" and i1: "1 < length ticks0" and i2: "2 < length ticks0"
    and i3: "3 < length ticks0" by (simp_all add: l)
  from collision_debounce[OF r i0] collision_debounce[OF r i1]
    collision_debounce[OF r i2] collision_debounce[OF r i3] h c f l
  show ?thesis by simp
qed

text \<open>
  C4. Physics impulse formula. When the relative velocity along the axis does not
  indicate separation, the handler subtracts \<open>J \<cdot> axis\<close> from the impulse of body1
  and adds it to the impulse of body2, with \<open>J = mu (1 + e) v_rel\<close>, where
  \<open>mu = m1 m2 / (m1 + m2)\<close> for two finite masses and \<open>mu\<close> is the finite mass
  when the other mass is infinite; the infinite-mass body is returned unchanged.
\<close>

theorem physics_impulse:
  assumes "\<not> separating (vec_dot (vec_subtract (body_velocity body1) (body_velocity body2)) ax)"
    and "v_rel = vec_dot (vec_subtract (body_velocity body1) (body_velocity body2)) ax"
  shows "(body_mass body1 = Finite m1 \<and> body_mass body2 = Finite m2 \<longrightarrow>
            physics_collision_handler separating body1 body2 ax e =
              Some (body1\<lparr>body_impulse := vec_subtract (body_impulse body1)
                        (vec_multiply ((m1 * m2) / (m1 + m2) * (1 + e) * v_rel) ax)\<rparr>,
                    body2\<lparr>body_impulse := vec_add (body_impulse body2)
                        (vec_multiply ((m1 * m2) / (m1 + m2) * (1 + e) * v_rel) ax)\<rparr>))
    \<and> (body_mass body1 = Infinite \<and> body_mass body2 = Finite m2 \<longrightarrow>
            physics_collision_handler separating body1 body2 ax e =
              Some (body1,
                    body2\<lparr>body_impulse := vec_add (body_impulse body2)
                        (vec_multiply (m2 * (1 + e) * v_rel) ax)\<rparr>))
    \<and> (body_mass body1 = Finite m1 \<and> body_mass body2 = Infinite \<longrightarrow>
            physics_collision_handler separating body1 body2 ax e =
              Some (body1\<lparr>body_impulse := vec_subtract (body_impulse body1)
                        (vec_multiply (m1 * (1 + e) * v_rel) ax)\<rparr>,
                    body2))"
  using assms
  by (simp add: physics_collision_handler_def Let_def body_add_impulse_def
      vec_add_def vec_subtract_def vec_multiply_def)

theorem physics_impulse_witness:
  "\<not> sep_test (vec_dot (vec_subtract (body_velocity ball1) (body_velocity ball2)) \<lparr>x = 1, y = 0\<rparr>)
   \<and> body_mass ball1 = Finite 2 \<and> body_mass ball2 = Finite 2
   \<and> physics_collision_handler sep_test ball1 ball2 \<lparr>x = 1, y = 0\<rparr> (1 / 2) =
       Some (ball1\<lparr>body_impulse := \<lparr>x = -3, y = 0\<rparr>\<rparr>, ball2\<lparr>body_impulse := \<lparr>x = 3, y = 0\<rparr>\<rparr>)
   \<and> \<not> sep_test (vec_dot (vec_subtract (body_velocity ball1) (body_velocity wall)) \<lparr>x = 1, y = 0\<rparr>)
   \<and> body_mass wall = Infinite
   \<and> physics_collision_handler sep_test ball1 wall \<lparr>x = 1, y = 0\<rparr> (1 / 2) =
       Some (ball1\<lparr>body_impulse := \<lparr>x = -9, y = 0\<rparr>\<rparr>, wall)
   \<and> \<not> sep_test (vec_dot (vec_subtract (body_velocity wall) (body_velocity ball1)) \<lparr>x = -1, y = 0\<rparr>)
   \<and> physics_collision_handler sep_test wall ball1 \<lparr>x = -1, y = 0\<rparr> (1 / 2) =
       Some (wall, ball1\<lparr>body_impulse := \<lparr>x = -9, y = 0\<rparr>\<rparr>)"
proof -
  have a: "\<not> sep_test (vec_dot (vec_subtract (body_velocity ball1) (body_velocity ball2)) \<lparr>x = 1, y = 0\<rparr>)"
    by (simp add: sep_test_def ball1_def ball2_def vec_dot_def vec_subtract_def)
  have b: "\<not> sep_test (vec_dot (vec_subtract (body_velocity ball1) (body_velocity wall)) \<lparr>x = 1, y = 0\<rparr>)"
    by (simp add: sep_test_def ball1_def wall_def vec_dot_def vec_subtract_def VEC_ZERO_def)
  have c: "\<not> sep_test (vec_dot (vec_subtract (body_velocity wall) (body_velocity ball1)) \<lparr>x = -1, y = 0\<rparr>)"
    by (simp add: sep_test_def ball1_def wall_def vec_dot_def vec_subtract_def VEC_ZERO_def)
  have m: "body_mass ball1 = Finite 2" "body_mass ball2 = Finite 2" "body_mass wall = Infinite"
    by (simp_all add: ball1_def ball2_def wall_def)
  have v: "vec_dot (vec_subtract (body_velocity ball1) (body_velocity ball2)) \<lparr>x = 1, y = 0\<rparr> = 2"
      "vec_dot (vec_subtract (body_velocity ball1) (body_velocity wall)) \<lparr>x = 1, y = 0\<rparr> = 3"
      "vec_dot (vec_subtract (body_velocity wall) (body_velocity ball1)) \<lparr>x = -1, y = 0\<rparr> = 3"
    by (simp_all add: ball1_def ball2_def wall_def vec_dot_def vec_subtract_def VEC_ZERO_def)
  have i: "body_impulse ball1 = VEC_ZERO" "body_impulse ball2 = VEC_ZERO"
    by (simp_all add: ball1_def ball2_def)
  from physics_impulse[where separating = sep_test and ?body1.0 = ball1 and ?body2.0 = ball2
        and ax = "\<lparr>x = 1, y = 0\<rparr>" and ?m1.0 = 2 and ?m2.0 = 2 and e = "1 / 2", OF a refl]
    physics_impulse[where separating = sep_test and ?body1.0 = ball1 and ?body2.0 = wall
        and ax = "\<lparr>x = 1, y = 0\<rparr>" and ?m1.0 = 2 and ?m2.0 = 2 and e = "1 / 2", OF b refl]
    physics_impulse[where separating = sep_test and ?body1.0 = wall and ?body2.0 = ball1
        and ax = "\<lparr>x = -1, y = 0\<rparr>" and ?m1.0 = 2 and ?m2.0 = 2 and e = "1 / 2", OF c refl]
    a b c m
  show ?thesis
    by (simp add: ball1_def ball2_def wall_def vec_dot_def vec_add_def vec_subtract_def
        vec_multiply_def VEC_ZERO_def sep_test_def)
qed

end
